theory Spec2Isabelle
  imports Complex_Main "HOL-Library.Multiset"
begin

section \<open>PitML: the training and visualisation harness of transfer_learning_PitML_metrics.py\<close>

text \<open>
  The script is orchestration over PyTorch, torchvision, scikit-learn and matplotlib.
  The embedding keeps the control flow, the local variables and the order of the library
  calls of \<^verbatim>\<open>train_model\<close> and \<^verbatim>\<open>visualize_model\<close> as the source has them.
  What the libraries compute is a parameter: a record \<open>torch\<close> of functions for the
  network, the loss, the optimizer and the scheduler. Every call that reaches a library
  is also appended to a list of \<open>events\<close>, in program order, so that statements about
  which calls happen, and when, are statements about that list.

  Python floats are modelled by \<open>real\<close>; rounding is not modelled. The accuracies the
  loop compares are quotients \<open>k / N\<close> of counts by one fixed dataset size, on which
  double precision division is strictly monotone for every dataset that fits in memory,
  so the comparisons come out as they do on the reals.

  The exceptions modelled are the ones the script's own Python operations raise (a
  division by zero, a method missing on an \<open>int\<close>, a list index out of range), the
  failure of the dataset loader, and the \<open>ValueError\<close> of \<^verbatim>\<open>plt.subplot\<close> for a cell
  that the grid computed at line 291 does not have. Every other library call is taken to
  return. A run that raises is the error alone: the state it leaves behind is not kept.
\<close>

subsection \<open>Data\<close>

datatype phase = Train | Val

datatype error = DataLoadError | ZeroDivisionError | AttributeError | IndexError | ValueError

text \<open>
  The library calls and console lines of the script. \<open>ModelTrain b\<close> is
  \<^verbatim>\<open>model.train(mode=b)\<close>; \<^verbatim>\<open>model.eval()\<close> is \<open>ModelTrain False\<close>.
  \<open>Forward g\<close> is \<^verbatim>\<open>model(inputs)\<close> run under \<^verbatim>\<open>torch.set_grad_enabled(g)\<close>
  (or under \<^verbatim>\<open>torch.no_grad()\<close>, \<open>g = False\<close>).
\<close>

datatype event =
    PrintEpoch nat int
  | PrintDashes
  | SchedulerStep
  | ModelTrain bool
  | ZeroGrad
  | Forward bool
  | Backward
  | OptimizerStep
  | PrintPhase phase real real
  | PrintPreds "nat list"
  | PrintTrainingComplete
  | PrintBestAcc real
  | PlotLearningCurve "real list" "real list" nat
  | LoadStateDict
  | Figure
  | Subplot nat nat nat
  | AxisOff
  | SetTitle string
  | Imshow
  | PrintAccuracy real
  | PrintGroundtruth "nat list"
  | PrintPredicted "nat list"
  | PrintConfidence "real list"
  | ComputeRocMetrics "nat list" "real list"

text \<open>
  The framework, as the script uses it. \<open>'w\<close> is what \<^verbatim>\<open>model.state_dict()\<close>
  holds (parameters and buffers), \<open>'g\<close> the gradients of the parameters, \<open>'o\<close> the
  optimizer's own state, \<open>'s\<close> the scheduler's, \<open>'x\<close> an image tensor and \<open>'y\<close> the
  output tensor of one batch.
  \<^item> \<open>forward t w xs\<close>: \<^verbatim>\<open>model(inputs)\<close> with \<^verbatim>\<open>model.training = t\<close>; it returns the
    state (a layer may write its buffers) and the outputs.
  \<^item> \<open>argmax y j\<close>: entry \<open>j\<close> of \<^verbatim>\<open>torch.max(outputs, 1)[1]\<close>, the class predicted for row \<open>j\<close>.
  \<^item> \<open>criterion y ls\<close>: \<^verbatim>\<open>criterion(outputs, labels).item()\<close>.
  \<^item> \<open>backward w xs ls g\<close>: \<^verbatim>\<open>loss.backward()\<close>, which adds to the gradients.
  \<^item> \<open>zero_grad\<close>, \<open>optimizer_step\<close>, \<open>scheduler_step\<close>: the calls of those names;
    the scheduler writes the learning rate into the optimizer.
\<close>

record ('w, 'g, 'o, 's, 'x, 'y) torch =
  forward :: "bool \<Rightarrow> 'w \<Rightarrow> 'x list \<Rightarrow> 'w \<times> 'y"
  argmax :: "'y \<Rightarrow> nat \<Rightarrow> nat"
  criterion :: "'y \<Rightarrow> nat list \<Rightarrow> real"
  backward :: "'w \<Rightarrow> 'x list \<Rightarrow> nat list \<Rightarrow> 'g \<Rightarrow> 'g"
  zero_grad :: "'g \<Rightarrow> 'g"
  optimizer_step :: "'o \<Rightarrow> 'g \<Rightarrow> 'w \<Rightarrow> 'o \<times> 'w"
  scheduler_step :: "'s \<Rightarrow> 'o \<Rightarrow> 's \<times> 'o"

text \<open>
  The module-level globals the two functions read. \<open>image_datasets p\<close> lists the items
  (image, label) of the dataset of phase \<open>p\<close>. \<open>dataloaders p k\<close> is the list of batches
  that the \<open>k\<close>-th pass over \<^verbatim>\<open>dataloaders[p]\<close> yields: the loaders shuffle, and the
  training transform is random, so each pass has its own list.
\<close>

record 'x globals =
  image_datasets :: "phase \<Rightarrow> ('x \<times> nat) list"
  dataloaders :: "phase \<Rightarrow> nat \<Rightarrow> ('x \<times> nat) list list"
  class_names :: "string list"

definition dataset_sizes :: "'x globals \<Rightarrow> phase \<Rightarrow> nat" where
  "dataset_sizes G x = length (image_datasets G x)"

text \<open>
  The objects \<^verbatim>\<open>train_model\<close> and \<^verbatim>\<open>visualize_model\<close> are handed and mutate in
  place: the model (its state, gradients and mode flag), the optimizer, the scheduler,
  and the trace of calls.
\<close>

record ('w, 'g, 'o, 's) objects =
  state_dict :: 'w
  grad :: 'g
  training :: bool
  optimizer :: 'o
  scheduler :: 's
  events :: "event list"

subsection \<open>train_model\<close>

text \<open>The objects together with the local variables of \<^verbatim>\<open>train_model\<close>.\<close>

record ('w, 'g, 'o, 's) train_state = "('w, 'g, 'o, 's) objects" +
  train_val_losses :: "phase \<Rightarrow> real list"
  best_model_wts :: 'w
  best_acc :: real
  running_loss :: real
  running_corrects :: nat
  preds :: "nat list"
  epoch_loss :: real
  epoch_acc :: real

definition emit :: "event list \<Rightarrow> ('w, 'g, 'o, 's, 'z) objects_scheme \<Rightarrow> ('w, 'g, 'o, 's, 'z) objects_scheme" where
  "emit es st = st\<lparr>events := events st @ es\<rparr>"

text \<open>
  \<^verbatim>\<open>plot_learning_curve\<close> (lines 203-222) consists of matplotlib calls only; it is one
  event that carries its three arguments.
\<close>

definition plot_learning_curve ::
  "real list \<Rightarrow> real list \<Rightarrow> nat \<Rightarrow> ('w, 'g, 'o, 's, 'z) objects_scheme \<Rightarrow> ('w, 'g, 'o, 's, 'z) objects_scheme" where
  "plot_learning_curve training_loss validation_loss num_epoch st =
     emit [PlotLearningCurve training_loss validation_loss num_epoch] st"

text \<open>The number of positions where prediction and label agree: \<^verbatim>\<open>torch.sum(preds == labels)\<close>.\<close>

definition count_equal :: "nat list \<Rightarrow> nat list \<Rightarrow> nat" where
  "count_equal ps ls = length (filter (\<lambda>(p, l). p = l) (zip ps ls))"

text \<open>One iteration of the batch loop, lines 145-165.\<close>

definition run_batch ::
  "('w, 'g, 'o, 's, 'x, 'y) torch \<Rightarrow> phase \<Rightarrow> ('x \<times> nat) list \<Rightarrow>
   ('w, 'g, 'o, 's) train_state \<Rightarrow> ('w, 'g, 'o, 's) train_state" where
  "run_batch T ph batch st =
    (let inputs = map fst batch;
         labels = map snd batch;
         st1 = emit [ZeroGrad] (st\<lparr>grad := zero_grad T (grad st)\<rparr>);
         (w1, outputs) = forward T (training st1) (state_dict st1) inputs;
         ps = map (argmax T outputs) [0..<length inputs];
         loss = criterion T outputs labels;
         st2 = emit [Forward (ph = Train)] (st1\<lparr>state_dict := w1, preds := ps\<rparr>);
         st3 = (if ph = Train then
                  (let g = backward T (state_dict st1) inputs labels (grad st2);
                       (o1, w2) = optimizer_step T (optimizer st2) g (state_dict st2)
                   in emit [Backward, OptimizerStep]
                        (st2\<lparr>grad := g, optimizer := o1, state_dict := w2\<rparr>))
                else st2)
     in st3\<lparr>running_loss := running_loss st3 + loss * real (length inputs),
            running_corrects := running_corrects st3 + count_equal ps labels\<rparr>)"

text \<open>
  Lines 134-141, the start of a phase: the scheduler is advanced and the model put in
  training mode (TRAIN), or the model put in evaluation mode (VAL); then the two running
  sums are reset.
\<close>

definition phase_begin ::
  "('w, 'g, 'o, 's, 'x, 'y) torch \<Rightarrow> phase \<Rightarrow>
   ('w, 'g, 'o, 's) train_state \<Rightarrow> ('w, 'g, 'o, 's) train_state" where
  "phase_begin T ph st =
    (let st1 = (if ph = Train then
                  (let (s1, o1) = scheduler_step T (scheduler st) (optimizer st)
                   in emit [ModelTrain True]
                        ((emit [SchedulerStep] (st\<lparr>scheduler := s1, optimizer := o1\<rparr>))\<lparr>training := True\<rparr>))
                else emit [ModelTrain False] (st\<lparr>training := False\<rparr>))
     in st1\<lparr>running_loss := 0, running_corrects := 0\<rparr>)"

text \<open>
  One phase of one epoch, lines 134-180. Line 167 divides a Python float by the dataset
  size and raises on zero; line 168 calls \<^verbatim>\<open>.double()\<close> on \<^verbatim>\<open>running_corrects\<close>,
  which is still the \<open>int\<close> of line 141 when the loader yielded no batch.
\<close>

definition run_phase ::
  "('w, 'g, 'o, 's, 'x, 'y) torch \<Rightarrow> 'x globals \<Rightarrow> nat \<Rightarrow> phase \<Rightarrow>
   ('w, 'g, 'o, 's) train_state \<Rightarrow> error + ('w, 'g, 'o, 's) train_state" where
  "run_phase T G epoch ph st =
    (let st3 = fold (run_batch T ph) (dataloaders G ph epoch) (phase_begin T ph st)
     in if dataset_sizes G ph = 0 then Inl ZeroDivisionError
        else if dataloaders G ph epoch = [] then Inl AttributeError
        else
          (let st4 = st3\<lparr>epoch_loss := running_loss st3 / real (dataset_sizes G ph),
                         epoch_acc := real (running_corrects st3) / real (dataset_sizes G ph)\<rparr>;
               st5 = emit [PrintPhase ph (epoch_loss st4) (epoch_acc st4), PrintPreds (preds st4)] st4;
               st6 = st5\<lparr>train_val_losses :=
                            (train_val_losses st5)(ph := train_val_losses st5 ph @ [epoch_loss st5])\<rparr>
           in Inr (if ph = Val \<and> epoch_acc st6 > best_acc st6
                   then st6\<lparr>best_acc := epoch_acc st6, best_model_wts := state_dict st6\<rparr>
                   else st6)))"

text \<open>A \<^verbatim>\<open>for\<close> loop whose body may raise: the first error ends the loop.\<close>

fun for_each :: "('a \<Rightarrow> 'st \<Rightarrow> error + 'st) \<Rightarrow> 'a list \<Rightarrow> 'st \<Rightarrow> error + 'st" where
  "for_each body [] st = Inr st"
| "for_each body (x # xs) st =
     (case body x st of Inl e \<Rightarrow> Inl e | Inr st1 \<Rightarrow> for_each body xs st1)"

text \<open>The body of the epoch loop, lines 129-182.\<close>

definition run_epoch ::
  "('w, 'g, 'o, 's, 'x, 'y) torch \<Rightarrow> 'x globals \<Rightarrow> nat \<Rightarrow> nat \<Rightarrow>
   ('w, 'g, 'o, 's) train_state \<Rightarrow> error + ('w, 'g, 'o, 's) train_state" where
  "run_epoch T G num_epochs epoch st =
    (case for_each (run_phase T G epoch) [Train, Val]
            (emit [PrintEpoch epoch (int num_epochs - 1), PrintDashes] st) of
       Inl e \<Rightarrow> Inl e
     | Inr st1 \<Rightarrow> Inr (emit [PrintPreds (preds st1)] st1))"

text \<open>
  Lines 122-126: the local variables at entry. \<^verbatim>\<open>preds\<close>, \<^verbatim>\<open>epoch_loss\<close> and
  \<^verbatim>\<open>epoch_acc\<close> are unbound in Python until a batch or a phase has run; no line reads
  them before that, and the values given here are never used.
\<close>

definition train_init :: "('w, 'g, 'o, 's) objects \<Rightarrow> ('w, 'g, 'o, 's) train_state" where
  "train_init m =
     \<lparr>state_dict = state_dict m, grad = grad m, training = training m,
      optimizer = optimizer m, scheduler = scheduler m, events = events m,
      train_val_losses = (\<lambda>_. []), best_model_wts = state_dict m, best_acc = 0,
      running_loss = 0, running_corrects = 0, preds = [], epoch_loss = 0, epoch_acc = 0\<rparr>"

text \<open>The state of the loop after its first \<open>k\<close> epochs, in a run of \<open>num_epochs\<close> epochs.\<close>

definition epochs_state ::
  "('w, 'g, 'o, 's, 'x, 'y) torch \<Rightarrow> 'x globals \<Rightarrow> ('w, 'g, 'o, 's) objects \<Rightarrow> nat \<Rightarrow> nat \<Rightarrow>
   error + ('w, 'g, 'o, 's) train_state" where
  "epochs_state T G m num_epochs k = for_each (run_epoch T G num_epochs) [0..<k] (train_init m)"

text \<open>Lines 184-193: what follows the loop. The result is the model, with the objects it shares.\<close>

definition train_finish :: "nat \<Rightarrow> ('w, 'g, 'o, 's) train_state \<Rightarrow> ('w, 'g, 'o, 's) objects" where
  "train_finish num_epochs st =
    (let st1 = emit [PrintTrainingComplete, PrintBestAcc (best_acc st)] st;
         st2 = plot_learning_curve (train_val_losses st1 Train) (train_val_losses st1 Val) num_epochs st1;
         st3 = emit [LoadStateDict] (st2\<lparr>state_dict := best_model_wts st2\<rparr>)
     in \<lparr>state_dict = state_dict st3, grad = grad st3, training = training st3,
         optimizer = optimizer st3, scheduler = scheduler st3, events = events st3\<rparr>)"

definition train_model ::
  "('w, 'g, 'o, 's, 'x, 'y) torch \<Rightarrow> 'x globals \<Rightarrow> ('w, 'g, 'o, 's) objects \<Rightarrow> nat \<Rightarrow>
   error + ('w, 'g, 'o, 's) objects" where
  "train_model T G m num_epochs =
    (case epochs_state T G m num_epochs num_epochs of
       Inl e \<Rightarrow> Inl e
     | Inr st \<Rightarrow> Inr (train_finish num_epochs st))"

subsection \<open>compute_roc_metrics and visualize_model\<close>

text \<open>
  \<^verbatim>\<open>compute_roc_metrics\<close> (lines 231-259) consists of scikit-learn and matplotlib calls
  only; it is one event that carries its two arguments.
\<close>

definition compute_roc_metrics ::
  "nat list \<Rightarrow> real list \<Rightarrow> ('w, 'g, 'o, 's, 'z) objects_scheme \<Rightarrow> ('w, 'g, 'o, 's, 'z) objects_scheme" where
  "compute_roc_metrics groundtruth_labels probs st = emit [ComputeRocMetrics groundtruth_labels probs] st"

text \<open>The objects together with the local variables of \<^verbatim>\<open>visualize_model\<close>.\<close>

record ('w, 'g, 'o, 's) vis_state = "('w, 'g, 'o, 's) objects" +
  was_training :: bool
  images_so_far :: nat
  total_cnt :: nat
  correct :: nat
  probability :: real
  prob_estimates :: "real list"
  pred_estimates :: "nat list"
  pred_groundtruth :: "nat list"

text \<open>
  A \<^verbatim>\<open>for\<close> loop whose body may raise or execute \<^verbatim>\<open>return\<close>: \<open>Return\<close> leaves
  every enclosing loop, \<open>Next\<close> goes on with the next element.
\<close>

datatype 'a flow = Next (flow_state: 'a) | is_Return: Return (flow_state: 'a)

fun for_loop :: "('a \<Rightarrow> 'st \<Rightarrow> error + 'st flow) \<Rightarrow> 'a list \<Rightarrow> 'st \<Rightarrow> error + 'st flow" where
  "for_loop body [] st = Inr (Next st)"
| "for_loop body (x # xs) st =
     (case body x st of
        Inl e \<Rightarrow> Inl e
      | Inr (Return st1) \<Rightarrow> Inr (Return st1)
      | Inr (Next st1) \<Rightarrow> for_loop body xs st1)"

text \<open>
  The body of the inner loop, lines 290-316, for sample \<open>j\<close> of a batch with predictions
  \<open>ps\<close> and labels \<open>labels\<close>. Line 291 asks for cell \<^verbatim>\<open>images_so_far\<close> of a grid of
  \<^verbatim>\<open>num_images//6\<close> rows and 6 columns; \<^verbatim>\<open>plt.subplot\<close> raises \<open>ValueError\<close> unless the
  cell number is between 1 and the number of cells, so it raises when the grid has no
  row or the sample is past its last cell. \<^verbatim>\<open>class_names[preds[j]]\<close> raises when the
  predicted class has no name. Lines 297 and 298 add the size of the whole batch and the
  number of correct predictions of the whole batch, once for every sample.
\<close>

definition show_sample ::
  "'x globals \<Rightarrow> nat \<Rightarrow> nat list \<Rightarrow> nat list \<Rightarrow> nat \<Rightarrow>
   ('w, 'g, 'o, 's) vis_state \<Rightarrow> error + ('w, 'g, 'o, 's) vis_state flow" where
  "show_sample G num_images ps labels j st =
    (let st1 = st\<lparr>images_so_far := images_so_far st + 1\<rparr>
     in if (num_images div 6) * 6 < images_so_far st1 then Inl ValueError
        else
          (let st2 = emit [Subplot (num_images div 6) 6 (images_so_far st1), AxisOff] st1
           in if length (class_names G) \<le> ps ! j then Inl IndexError
              else
                (let st3 = emit [SetTitle (class_names G ! (ps ! j)), Imshow] st2;
                     st4 = st3\<lparr>total_cnt := total_cnt st3 + length labels,
                               correct := correct st3 + count_equal ps labels\<rparr>
                 in if total_cnt st4 = 0 then Inl ZeroDivisionError
                    else
                      (let st5 = st4\<lparr>probability := 100 * real (correct st4) / real (total_cnt st4)\<rparr>;
                           st6 = st5\<lparr>prob_estimates := prob_estimates st5 @ [probability st5],
                                     pred_estimates := pred_estimates st5 @ [ps ! j],
                                     pred_groundtruth := pred_groundtruth st5 @ [labels ! j]\<rparr>;
                           st7 = emit [PrintAccuracy (probability st6)] st6
                       in if images_so_far st7 = num_images then
                            (let st8 = emit [ModelTrain (was_training st7)]
                                         (st7\<lparr>training := was_training st7\<rparr>);
                                 st9 = emit [PrintGroundtruth (pred_groundtruth st8),
                                             PrintPredicted (pred_estimates st8),
                                             PrintConfidence (prob_estimates st8)] st8
                             in Inr (Return (compute_roc_metrics (pred_groundtruth st9)
                                               (prob_estimates st9) st9)))
                          else Inr (Next st7)))))"

text \<open>The body of the outer loop, lines 283-316, under \<^verbatim>\<open>torch.no_grad()\<close>.\<close>

definition show_batch ::
  "('w, 'g, 'o, 's, 'x, 'y) torch \<Rightarrow> 'x globals \<Rightarrow> nat \<Rightarrow> ('x \<times> nat) list \<Rightarrow>
   ('w, 'g, 'o, 's) vis_state \<Rightarrow> error + ('w, 'g, 'o, 's) vis_state flow" where
  "show_batch T G num_images batch st =
    (let inputs = map fst batch;
         labels = map snd batch;
         (w1, outputs) = forward T (training st) (state_dict st) inputs;
         ps = map (argmax T outputs) [0..<length inputs];
         st1 = emit [Forward False] (st\<lparr>state_dict := w1\<rparr>)
     in for_loop (show_sample G num_images ps labels) [0..<length inputs] st1)"

text \<open>Lines 270-279: the local variables at entry, after \<^verbatim>\<open>model.eval()\<close>.\<close>

definition vis_init :: "('w, 'g, 'o, 's) objects \<Rightarrow> ('w, 'g, 'o, 's) vis_state" where
  "vis_init m =
     \<lparr>state_dict = state_dict m, grad = grad m, training = False,
      optimizer = optimizer m, scheduler = scheduler m,
      events = events m @ [ModelTrain False, Figure],
      was_training = training m, images_so_far = 0, total_cnt = 0, correct = 0,
      probability = 0, prob_estimates = [], pred_estimates = [], pred_groundtruth = []\<rparr>"

text \<open>
  The loop of \<^verbatim>\<open>visualize_model\<close> over pass \<open>k\<close> of the validation loader, with the
  local variables still in view: \<open>Return\<close> when line 316 returned, \<open>Next\<close> when the loader
  ran out first.
\<close>

definition visualize_loop ::
  "('w, 'g, 'o, 's, 'x, 'y) torch \<Rightarrow> 'x globals \<Rightarrow> nat \<Rightarrow> ('w, 'g, 'o, 's) objects \<Rightarrow> nat \<Rightarrow>
   error + ('w, 'g, 'o, 's) vis_state flow" where
  "visualize_loop T G k m num_images =
     for_loop (show_batch T G num_images) (dataloaders G Val k) (vis_init m)"

definition vis_objects :: "('w, 'g, 'o, 's) vis_state \<Rightarrow> ('w, 'g, 'o, 's) objects" where
  "vis_objects st =
     \<lparr>state_dict = state_dict st, grad = grad st, training = training st,
      optimizer = optimizer st, scheduler = scheduler st, events = events st\<rparr>"

definition visualize_model ::
  "('w, 'g, 'o, 's, 'x, 'y) torch \<Rightarrow> 'x globals \<Rightarrow> nat \<Rightarrow> ('w, 'g, 'o, 's) objects \<Rightarrow> nat \<Rightarrow>
   error + ('w, 'g, 'o, 's) objects" where
  "visualize_model T G k m num_images =
    (case visualize_loop T G k m num_images of
       Inl e \<Rightarrow> Inl e
     | Inr (Return st) \<Rightarrow> Inr (vis_objects st)
     | Inr (Next st) \<Rightarrow>
         Inr (vis_objects (emit [ModelTrain (was_training st)] (st\<lparr>training := was_training st\<rparr>))))"

subsection \<open>Loading the datasets\<close>

text \<open>
  A dataset folder is listed as its class subfolders, in sorted order, each with the image
  files it holds; a file system maps a path to the listing of the folder there, if there
  is one.
\<close>

type_synonym directory = "(string \<times> string list) list"

type_synonym filesystem = "string \<Rightarrow> directory option"

record dataset =
  classes :: "string list"
  samples :: "(string \<times> nat) list"

text \<open>
  Modelled from the spec: \<^verbatim>\<open>torchvision.datasets.ImageFolder\<close> is not part of the
  repository. Sections 4.1 and 7 of the spec say that loading fails with DataLoadError
  when a subfolder is missing or empty; section 6 says that the class names are the
  names of the subfolders, sorted. Every image is labelled with the index of its class.
\<close>

definition ImageFolder :: "filesystem \<Rightarrow> string \<Rightarrow> error + dataset" where
  "ImageFolder fs folder =
     (case fs folder of
        None \<Rightarrow> Inl DataLoadError
      | Some d \<Rightarrow>
          if d = [] \<or> [] \<in> set (map snd d) then Inl DataLoadError
          else Inr \<lparr>classes = map fst d,
                    samples = concat (map (\<lambda>(i, c). map (\<lambda>f. (f, i)) (snd c)) (enumerate 0 d))\<rparr>)"

definition data_dir :: string where
  "data_dir = ''data/pituitary_data''"

definition os_path_join :: "string \<Rightarrow> string \<Rightarrow> string" where
  "os_path_join a b = a @ ''/'' @ b"

fun phase_name :: "phase \<Rightarrow> string" where
  "phase_name Train = ''train''"
| "phase_name Val = ''val''"

text \<open>
  Lines 64-67: the dictionary comprehension builds the dataset of \<^verbatim>\<open>'train'\<close>, then the
  one of \<^verbatim>\<open>'val'\<close>, each from its own folder; an exception of either call ends it.
\<close>

definition load_image_datasets :: "filesystem \<Rightarrow> error + (phase \<Rightarrow> dataset)" where
  "load_image_datasets fs =
     (case ImageFolder fs (os_path_join data_dir (phase_name Train)) of
        Inl e \<Rightarrow> Inl e
      | Inr tr \<Rightarrow>
          (case ImageFolder fs (os_path_join data_dir (phase_name Val)) of
             Inl e \<Rightarrow> Inl e
           | Inr va \<Rightarrow> Inr (\<lambda>x. case x of Train \<Rightarrow> tr | Val \<Rightarrow> va)))"

text \<open>
  The script as a whole: lines 64-67, and then \<open>rest\<close>, everything from line 68 on (the
  loaders, the two models, their training and their visualisation), which is given the
  datasets. An exception at module level ends the script: nothing of \<open>rest\<close> runs.
\<close>

definition script :: "filesystem \<Rightarrow> ((phase \<Rightarrow> dataset) \<Rightarrow> error + 'r) \<Rightarrow> error + 'r" where
  "script fs rest = (case load_image_datasets fs of Inl e \<Rightarrow> Inl e | Inr ds \<Rightarrow> rest ds)"

subsection \<open>Auxiliary notions for the statements\<close>

definition batch_events :: "phase \<Rightarrow> event list" where
  "batch_events ph = [ZeroGrad, Forward (ph = Train)] @ (if ph = Train then [Backward, OptimizerStep] else [])"

definition eval_pure :: "('w, 'g, 'o, 's, 'x, 'y) torch \<Rightarrow> bool" where
  "eval_pure T = (\<forall>w xs. fst (forward T False w xs) = w)"

text \<open>
  What the batch loop observes, batch by batch, when it starts in state \<open>st\<close>: the loss of
  the batch, its size, and its number of correct predictions.
\<close>

fun batch_stats ::
  "('w, 'g, 'o, 's, 'x, 'y) torch \<Rightarrow> phase \<Rightarrow> ('x \<times> nat) list list \<Rightarrow>
   ('w, 'g, 'o, 's) train_state \<Rightarrow> (real \<times> nat \<times> nat) list" where
  "batch_stats T ph [] st = []"
| "batch_stats T ph (b # bs) st =
     (let outputs = snd (forward T (training st) (state_dict st) (map fst b))
      in (criterion T outputs (map snd b), length b,
          count_equal (map (argmax T outputs) [0..<length b]) (map snd b)))
     # batch_stats T ph bs (run_batch T ph b st)"

definition weighted_loss :: "(real \<times> nat \<times> nat) list \<Rightarrow> real" where
  "weighted_loss stats = sum_list (map (\<lambda>(l, n, c). l * real n) stats)"

definition total_corrects :: "(real \<times> nat \<times> nat) list \<Rightarrow> nat" where
  "total_corrects stats = sum_list (map (\<lambda>(l, n, c). c) stats)"

text \<open>
  The parameters the live model has at the end of epoch \<open>e\<close> (the ones a snapshot taken
  in that epoch copies), and the validation accuracy that epoch computed: the values of
  \<^verbatim>\<open>model.state_dict()\<close> and \<^verbatim>\<open>epoch_acc\<close> when the VAL phase of epoch \<open>e\<close> has ended.
\<close>

definition epoch_snapshot ::
  "('w, 'g, 'o, 's, 'x, 'y) torch \<Rightarrow> 'x globals \<Rightarrow> ('w, 'g, 'o, 's) objects \<Rightarrow> nat \<Rightarrow> nat \<Rightarrow> 'w" where
  "epoch_snapshot T G m num_epochs e =
     (case epochs_state T G m num_epochs (Suc e) of Inr st \<Rightarrow> state_dict st | Inl _ \<Rightarrow> state_dict m)"

definition epoch_val_acc ::
  "('w, 'g, 'o, 's, 'x, 'y) torch \<Rightarrow> 'x globals \<Rightarrow> ('w, 'g, 'o, 's) objects \<Rightarrow> nat \<Rightarrow> nat \<Rightarrow> real" where
  "epoch_val_acc T G m num_epochs e =
     (case epochs_state T G m num_epochs (Suc e) of Inr st \<Rightarrow> epoch_acc st | Inl _ \<Rightarrow> 0)"

text \<open>
  The validation accuracy of a parameter set \<open>w\<close>: the share of the validation items
  whose label the network predicts, in evaluation mode, with parameters \<open>w\<close>.
\<close>

definition predict :: "('w, 'g, 'o, 's, 'x, 'y) torch \<Rightarrow> 'w \<Rightarrow> 'x \<Rightarrow> nat" where
  "predict T w x = argmax T (snd (forward T False w [x])) 0"

definition val_accuracy :: "('w, 'g, 'o, 's, 'x, 'y) torch \<Rightarrow> 'x globals \<Rightarrow> 'w \<Rightarrow> real" where
  "val_accuracy T G w =
     real (length (filter (\<lambda>(x, l). predict T w x = l) (image_datasets G Val)))
       / real (dataset_sizes G Val)"

text \<open>
  What the statements about accuracies assume of the framework and of the loaders. In
  evaluation mode the class predicted for an image does not depend on the batch the image
  is in (\<open>eval_rowwise\<close>). Both datasets have an item, every pass over the training
  loader yields a batch, and every pass over the validation loader yields every
  validation item exactly once, in some order and some batching (\<open>loaders_ok\<close>).
\<close>

definition eval_rowwise :: "('w, 'g, 'o, 's, 'x, 'y) torch \<Rightarrow> bool" where
  "eval_rowwise T =
     (\<forall>w xs j. j < length xs \<longrightarrow> argmax T (snd (forward T False w xs)) j = predict T w (xs ! j))"

definition loaders_ok :: "'x globals \<Rightarrow> nat \<Rightarrow> bool" where
  "loaders_ok G num_epochs =
     (image_datasets G Train \<noteq> [] \<and> image_datasets G Val \<noteq> [] \<and>
      list_all (\<lambda>e. dataloaders G Train e \<noteq> [] \<and>
                    mset (concat (dataloaders G Val e)) = mset (image_datasets G Val))
        [0..<num_epochs])"

definition no_improvement ::
  "('w, 'g, 'o, 's, 'x, 'y) torch \<Rightarrow> 'x globals \<Rightarrow> ('w, 'g, 'o, 's) objects \<Rightarrow> nat \<Rightarrow> bool" where
  "no_improvement T G m num_epochs =
     list_all (\<lambda>e. \<not> 0 < epoch_val_acc T G m num_epochs e) [0..<num_epochs]"

text \<open>
  For the statements about \<^verbatim>\<open>visualize_model\<close>: the calls lines 309-315 make when
  the requested number of samples is reached, the events that are a call of
  \<^verbatim>\<open>compute_roc_metrics\<close>, the events that print one of the three accumulated arrays,
  and the assumption that every class the network predicts has a name in
  \<^verbatim>\<open>class_names\<close>.
\<close>

definition final_events :: "('w, 'g, 'o, 's) vis_state \<Rightarrow> event list" where
  "final_events st =
     [ModelTrain (was_training st), PrintGroundtruth (pred_groundtruth st),
      PrintPredicted (pred_estimates st), PrintConfidence (prob_estimates st),
      ComputeRocMetrics (pred_groundtruth st) (prob_estimates st)]"

fun is_roc :: "event \<Rightarrow> bool" where
  "is_roc (ComputeRocMetrics gs ps) = True"
| "is_roc _ = False"

fun is_array_print :: "event \<Rightarrow> bool" where
  "is_array_print (PrintGroundtruth gs) = True"
| "is_array_print (PrintPredicted ps) = True"
| "is_array_print (PrintConfidence cs) = True"
| "is_array_print _ = False"

definition named_predictions :: "('w, 'g, 'o, 's, 'x, 'y) torch \<Rightarrow> 'x globals \<Rightarrow> bool" where
  "named_predictions T G = (\<forall>y j. argmax T y j < length (class_names G))"

text \<open>The calls lines 291-305 make for one sample, read off the state they leave.\<close>

definition sample_events :: "'x globals \<Rightarrow> nat \<Rightarrow> nat \<Rightarrow> ('w, 'g, 'o, 's) vis_state \<Rightarrow> event list" where
  "sample_events G n p st =
     [Subplot (n div 6) 6 (images_so_far st), AxisOff, SetTitle (class_names G ! p), Imshow,
      PrintAccuracy (probability st)]"

text \<open>
  The cumulative running accuracy as claim C3 words it: for each sample, 100 times the
  number of correct predictions among the samples so far, divided by the number of
  samples so far. \<open>c\<close> and \<open>t\<close> are the two counts before the first sample of the list
  of (prediction, label) pairs.
\<close>

fun spec_running_accuracy :: "nat \<Rightarrow> nat \<Rightarrow> (nat \<times> nat) list \<Rightarrow> real list" where
  "spec_running_accuracy c t [] = []"
| "spec_running_accuracy c t ((p, l) # rest) =
     (100 * real (if p = l then Suc c else c) / real (Suc t))
     # spec_running_accuracy (if p = l then Suc c else c) (Suc t) rest"

text \<open>
  For claim C8: the folder of a phase is missing or empty (it is not there, it has no
  class subfolder, or one of its class subfolders has no image), the names of the class
  subfolders of a phase, and the class structure of train and val being inconsistent.
\<close>

definition missing_or_empty :: "filesystem \<Rightarrow> phase \<Rightarrow> bool" where
  "missing_or_empty fs x =
     (case fs (os_path_join data_dir (phase_name x)) of
        None \<Rightarrow> True
      | Some d \<Rightarrow> d = [] \<or> [] \<in> set (map snd d))"

definition class_folders :: "filesystem \<Rightarrow> phase \<Rightarrow> string list" where
  "class_folders fs x =
     (case fs (os_path_join data_dir (phase_name x)) of None \<Rightarrow> [] | Some d \<Rightarrow> map fst d)"

definition inconsistent :: "filesystem \<Rightarrow> bool" where
  "inconsistent fs = (class_folders fs Train \<noteq> class_folders fs Val)"

subsection \<open>A small concrete instance\<close>

text \<open>
  A network with one natural number as its state, on images that are natural numbers:
  image \<open>x\<close> is put in class 1 when \<open>x\<close> is below the state and in class 0 otherwise. A
  forward pass in training mode adds one to the state (as a batch-norm buffer would be
  rewritten), in evaluation mode it leaves the state alone. Every \<^verbatim>\<open>backward\<close> adds one
  to the gradient, and the optimizer adds the gradient to the state.
\<close>

definition toy_torch :: "(nat, nat, nat, nat, nat, nat list) torch" where
  "toy_torch =
     \<lparr>forward = (\<lambda>t w xs. (if t then Suc w else w, map (\<lambda>x. if x < w then 1 else 0) xs)),
      argmax = (\<lambda>y j. if j < length y then y ! j mod 2 else 0),
      criterion = (\<lambda>y ls. real (length (filter (\<lambda>(p, l). p \<noteq> l) (zip y ls)))),
      backward = (\<lambda>w xs ls g. Suc g),
      zero_grad = (\<lambda>g. 0),
      optimizer_step = (\<lambda>opt g w. (Suc opt, w + g)),
      scheduler_step = (\<lambda>s opt. (Suc s, opt))\<rparr>"

text \<open>
  Two training images in one batch; two validation images, which the second pass yields
  in the other order and in two batches.
\<close>

definition toy_globals :: "nat globals" where
  "toy_globals =
     \<lparr>image_datasets = (\<lambda>x. case x of Train \<Rightarrow> [(0, 0), (9, 1)] | Val \<Rightarrow> [(1, 1), (3, 0)]),
      dataloaders = (\<lambda>x k. case x of
          Train \<Rightarrow> [[(0, 0), (9, 1)]]
        | Val \<Rightarrow> (if k = 0 then [[(1, 1), (3, 0)]] else [[(3, 0)], [(1, 1)]])),
      class_names = [''adenoma'', ''normal'']\<rparr>"

text \<open>The same, with validation labels that the network never predicts.\<close>

definition toy_globals_unseen :: "nat globals" where
  "toy_globals_unseen =
     \<lparr>image_datasets = (\<lambda>x. case x of Train \<Rightarrow> [(0, 0), (9, 1)] | Val \<Rightarrow> [(1, 5), (3, 5)]),
      dataloaders = (\<lambda>x k. case x of
          Train \<Rightarrow> [[(0, 0), (9, 1)]]
        | Val \<Rightarrow> [[(1, 5), (3, 5)]]),
      class_names = [''adenoma'', ''normal'']\<rparr>"

definition toy_objects :: "(nat, nat, nat, nat) objects" where
  "toy_objects =
     \<lparr>state_dict = 0, grad = 0, training = False, optimizer = 0, scheduler = 0, events = []\<rparr>"

text \<open>
  A validation loader with seven batches of four images, and the toy network after some
  training (state 2): of every batch it labels the second and the third image correctly
  and the first and the fourth wrongly.
\<close>

definition vis_globals :: "nat globals" where
  "vis_globals =
     \<lparr>image_datasets = (\<lambda>x. concat (replicate 7 [(0, 0), (1, 1), (2, 0), (3, 1)])),
      dataloaders = (\<lambda>x k. replicate 7 [(0, 0), (1, 1), (2, 0), (3, 1)]),
      class_names = [''adenoma'', ''normal'']\<rparr>"

definition toy_trained :: "(nat, nat, nat, nat) objects" where
  "toy_trained =
     \<lparr>state_dict = 2, grad = 0, training = True, optimizer = 0, scheduler = 0, events = []\<rparr>"

text \<open>
  Three dataset roots: one whose train and val folders name different classes, one with
  no val folder, and one that is in order. \<open>class_report\<close> stands for a rest of the script
  that reports the class names of the two datasets it was given.
\<close>

definition fs_mismatch :: filesystem where
  "fs_mismatch =
     (\<lambda>p. if p = ''data/pituitary_data/train''
             then Some [(''adenoma'', [''a1.jpg'']), (''normal'', [''n1.jpg''])]
           else if p = ''data/pituitary_data/val''
             then Some [(''normal'', [''n2.jpg'']), (''tumor'', [''t1.jpg''])]
           else None)"

definition fs_no_val :: filesystem where
  "fs_no_val =
     (\<lambda>p. if p = ''data/pituitary_data/train''
             then Some [(''adenoma'', [''a1.jpg'']), (''normal'', [''n1.jpg''])]
           else None)"

definition fs_good :: filesystem where
  "fs_good =
     (\<lambda>p. if p = ''data/pituitary_data/train''
             then Some [(''adenoma'', [''a1.jpg'']), (''normal'', [''n1.jpg''])]
           else if p = ''data/pituitary_data/val''
             then Some [(''adenoma'', [''a2.jpg'']), (''normal'', [''n2.jpg''])]
           else None)"

definition class_report :: "(phase \<Rightarrow> dataset) \<Rightarrow> error + string list \<times> string list" where
  "class_report ds = Inr (classes (ds Train), classes (ds Val))"

section \<open>Properties\<close>

subsection \<open>The trace and the frame of the loops\<close>

lemma emit_simps [simp]:
  "events (emit es st) = events st @ es"
  "state_dict (emit es st) = state_dict st"
  "grad (emit es st) = grad st"
  "training (emit es st) = training st"
  "optimizer (emit es st) = optimizer st"
  "scheduler (emit es st) = scheduler st"
  by (simp_all add: emit_def)

lemma emit_train_simps [simp]:
  "train_val_losses (emit es st) = train_val_losses st"
  "best_model_wts (emit es st) = best_model_wts st"
  "best_acc (emit es st) = best_acc st"
  "running_loss (emit es st) = running_loss st"
  "running_corrects (emit es st) = running_corrects st"
  "preds (emit es st) = preds st"
  "epoch_loss (emit es st) = epoch_loss st"
  "epoch_acc (emit es st) = epoch_acc st"
  by (simp_all add: emit_def)

lemma run_batch_events: "events (run_batch T ph b st) = events st @ batch_events ph"
  by (simp add: run_batch_def batch_events_def Let_def split: prod.splits)

lemma run_batch_frame:
  "train_val_losses (run_batch T ph b st) = train_val_losses st"
  "best_model_wts (run_batch T ph b st) = best_model_wts st"
  "best_acc (run_batch T ph b st) = best_acc st"
  "training (run_batch T ph b st) = training st"
  "scheduler (run_batch T ph b st) = scheduler st"
  "epoch_loss (run_batch T ph b st) = epoch_loss st"
  "epoch_acc (run_batch T ph b st) = epoch_acc st"
  by (simp_all add: run_batch_def Let_def split: prod.splits)

lemma run_batch_val:
  "optimizer (run_batch T Val b st) = optimizer st"
  "state_dict (run_batch T Val b st) = fst (forward T (training st) (state_dict st) (map fst b))"
  by (simp_all add: run_batch_def Let_def split: prod.splits)

lemma fold_run_batch_events:
  "events (fold (run_batch T ph) bs st) = events st @ concat (replicate (length bs) (batch_events ph))"
  by (induction bs arbitrary: st) (simp_all add: run_batch_events)

lemma fold_run_batch_frame:
  "train_val_losses (fold (run_batch T ph) bs st) = train_val_losses st"
  "best_model_wts (fold (run_batch T ph) bs st) = best_model_wts st"
  "best_acc (fold (run_batch T ph) bs st) = best_acc st"
  "training (fold (run_batch T ph) bs st) = training st"
  "scheduler (fold (run_batch T ph) bs st) = scheduler st"
  by (induction bs arbitrary: st; simp add: run_batch_frame)+

lemma fold_run_batch_val_optimizer:
  "optimizer (fold (run_batch T Val) bs st) = optimizer st"
  by (induction bs arbitrary: st) (simp_all add: run_batch_val)

lemma fold_run_batch_val_state_dict:
  "eval_pure T \<Longrightarrow> \<not> training st \<Longrightarrow> state_dict (fold (run_batch T Val) bs st) = state_dict st"
  by (induction bs arbitrary: st) (simp_all add: run_batch_val run_batch_frame eval_pure_def)

lemma phase_begin_fields:
  "train_val_losses (phase_begin T ph st) = train_val_losses st"
  "best_model_wts (phase_begin T ph st) = best_model_wts st"
  "best_acc (phase_begin T ph st) = best_acc st"
  "state_dict (phase_begin T ph st) = state_dict st"
  "training (phase_begin T ph st) = (ph = Train)"
  "running_loss (phase_begin T ph st) = 0"
  "running_corrects (phase_begin T ph st) = 0"
  "events (phase_begin T ph st) = events st @ (if ph = Train then [SchedulerStep, ModelTrain True] else [ModelTrain False])"
  by (simp_all add: phase_begin_def Let_def split: prod.splits)

lemma phase_begin_val:
  "optimizer (phase_begin T Val st) = optimizer st"
  "scheduler (phase_begin T Val st) = scheduler st"
  by (simp_all add: phase_begin_def Let_def split: prod.splits)

lemma phase_begin_train:
  "scheduler (phase_begin T Train st) = fst (scheduler_step T (scheduler st) (optimizer st))"
  by (simp_all add: phase_begin_def Let_def split: prod.splits)

text \<open>What a phase that returns has done, field by field.\<close>

lemma run_phase_Inr:
  assumes "run_phase T G e ph st = Inr st'"
  defines "st3 \<equiv> fold (run_batch T ph) (dataloaders G ph e) (phase_begin T ph st)"
  shows "dataset_sizes G ph \<noteq> 0" "dataloaders G ph e \<noteq> []"
    "epoch_loss st' = running_loss st3 / real (dataset_sizes G ph)"
    "epoch_acc st' = real (running_corrects st3) / real (dataset_sizes G ph)"
    "events st' = events st3 @ [PrintPhase ph (epoch_loss st') (epoch_acc st'), PrintPreds (preds st')]"
    "train_val_losses st' = (train_val_losses st)(ph := train_val_losses st ph @ [epoch_loss st'])"
    "state_dict st' = state_dict st3"
    "optimizer st' = optimizer st3"
    "scheduler st' = scheduler st3"
    "training st' = (ph = Train)"
    "best_acc st' = (if ph = Val \<and> epoch_acc st' > best_acc st then epoch_acc st' else best_acc st)"
    "best_model_wts st' = (if ph = Val \<and> epoch_acc st' > best_acc st then state_dict st' else best_model_wts st)"
  using assms(1) unfolding st3_def
  by (auto simp: run_phase_def Let_def fold_run_batch_frame phase_begin_fields split: if_splits)

lemma run_batch_sums:
  "running_loss (run_batch T ph b st) =
     running_loss st + criterion T (snd (forward T (training st) (state_dict st) (map fst b))) (map snd b) * real (length b)"
  "running_corrects (run_batch T ph b st) =
     running_corrects st +
     count_equal (map (argmax T (snd (forward T (training st) (state_dict st) (map fst b)))) [0..<length b]) (map snd b)"
  by (simp_all add: run_batch_def Let_def split: prod.splits)

lemma fold_run_batch_sums:
  "running_loss (fold (run_batch T ph) bs st) = running_loss st + weighted_loss (batch_stats T ph bs st)"
  "running_corrects (fold (run_batch T ph) bs st) = running_corrects st + total_corrects (batch_stats T ph bs st)"
  by (induction bs arbitrary: st; simp add: run_batch_sums weighted_loss_def total_corrects_def Let_def)+

lemma for_each_append:
  "for_each body (xs @ ys) st =
     (case for_each body xs st of Inl e \<Rightarrow> Inl e | Inr st1 \<Rightarrow> for_each body ys st1)"
  by (induction xs arbitrary: st) (simp_all split: sum.splits)

lemma epochs_state_0: "epochs_state T G m n 0 = Inr (train_init m)"
  by (simp add: epochs_state_def)

lemma epochs_state_Suc:
  "epochs_state T G m n (Suc k) =
     (case epochs_state T G m n k of Inl e \<Rightarrow> Inl e | Inr st \<Rightarrow> run_epoch T G n k st)"
  by (simp add: epochs_state_def for_each_append split: sum.splits)

lemma run_epoch_Inr:
  assumes "run_epoch T G n e st = Inr st'"
  obtains st1 st2 where
    "run_phase T G e Train (emit [PrintEpoch e (int n - 1), PrintDashes] st) = Inr st1"
    "run_phase T G e Val st1 = Inr st2"
    "st' = emit [PrintPreds (preds st2)] st2"
  using assms by (auto simp: run_epoch_def split: sum.splits)

lemma epochs_state_losses:
  "epochs_state T G m n k = Inr st \<Longrightarrow>
     length (train_val_losses st Train) = k \<and> length (train_val_losses st Val) = k"
proof (induction k arbitrary: st)
  case 0
  then show ?case by (auto simp: epochs_state_0 train_init_def)
next
  case (Suc k)
  from Suc.prems obtain st0 where st0: "epochs_state T G m n k = Inr st0"
    and step: "run_epoch T G n k st0 = Inr st"
    by (auto simp: epochs_state_Suc split: sum.splits)
  from step obtain st1 st2 where
    p1: "run_phase T G k Train (emit [PrintEpoch k (int n - 1), PrintDashes] st0) = Inr st1"
    and p2: "run_phase T G k Val st1 = Inr st2"
    and st: "st = emit [PrintPreds (preds st2)] st2"
    by (rule run_epoch_Inr)
  from Suc.IH [OF st0] show ?case
    by (simp add: st run_phase_Inr(6) [OF p1] run_phase_Inr(6) [OF p2])
qed

lemma batch_events_no_step: "SchedulerStep \<notin> set (concat (replicate k (batch_events ph)))"
  by (induction k) (auto simp: batch_events_def)

lemma run_phase_events:
  assumes "run_phase T G e ph st = Inr st'"
  shows "events st' = events st @
           (if ph = Train then [SchedulerStep, ModelTrain True] else [ModelTrain False]) @
           concat (replicate (length (dataloaders G ph e)) (batch_events ph)) @
           [PrintPhase ph (epoch_loss st') (epoch_acc st'), PrintPreds (preds st')]"
  by (simp add: run_phase_Inr(5) [OF assms] fold_run_batch_events phase_begin_fields)

lemma run_epoch_scheduler:
  assumes "run_epoch T G n e st = Inr st'"
  shows "\<exists>rest. events st' = events st @ [PrintEpoch e (int n - 1), PrintDashes, SchedulerStep] @ rest \<and>
           SchedulerStep \<notin> set rest"
    and "scheduler st' = fst (scheduler_step T (scheduler st) (optimizer st))"
proof -
  from assms obtain st1 st2 where
    p1: "run_phase T G e Train (emit [PrintEpoch e (int n - 1), PrintDashes] st) = Inr st1"
    and p2: "run_phase T G e Val st1 = Inr st2"
    and st': "st' = emit [PrintPreds (preds st2)] st2"
    by (rule run_epoch_Inr)
  let ?rest = "[ModelTrain True] @
      concat (replicate (length (dataloaders G Train e)) (batch_events Train)) @
      [PrintPhase Train (epoch_loss st1) (epoch_acc st1), PrintPreds (preds st1), ModelTrain False] @
      concat (replicate (length (dataloaders G Val e)) (batch_events Val)) @
      [PrintPhase Val (epoch_loss st2) (epoch_acc st2), PrintPreds (preds st2), PrintPreds (preds st2)]"
  have "events st' = events st @ [PrintEpoch e (int n - 1), PrintDashes, SchedulerStep] @ ?rest"
    by (simp add: st' run_phase_events [OF p2] run_phase_events [OF p1])
  moreover have "SchedulerStep \<notin> set ?rest"
    using batch_events_no_step by auto
  ultimately show "\<exists>rest. events st' = events st @ [PrintEpoch e (int n - 1), PrintDashes, SchedulerStep] @ rest \<and>
           SchedulerStep \<notin> set rest"
    by blast
  show "scheduler st' = fst (scheduler_step T (scheduler st) (optimizer st))"
    by (simp add: st' run_phase_Inr(9) [OF p2] run_phase_Inr(9) [OF p1]
        fold_run_batch_frame phase_begin_val phase_begin_train)
qed

lemma count_list_notin: "x \<notin> set xs \<Longrightarrow> count_list xs x = 0"
  by (induction xs) auto

lemma epochs_state_scheduler_steps:
  "epochs_state T G m n k = Inr st \<Longrightarrow>
     count_list (events st) SchedulerStep = count_list (events m) SchedulerStep + k"
proof (induction k arbitrary: st)
  case 0
  then show ?case by (auto simp: epochs_state_0 train_init_def)
next
  case (Suc k)
  from Suc.prems obtain st0 where st0: "epochs_state T G m n k = Inr st0"
    and step: "run_epoch T G n k st0 = Inr st"
    by (auto simp: epochs_state_Suc split: sum.splits)
  from run_epoch_scheduler(1) [OF step] obtain rest where
    ev: "events st = events st0 @ [PrintEpoch k (int n - 1), PrintDashes, SchedulerStep] @ rest"
    and no: "SchedulerStep \<notin> set rest"
    by blast
  show ?case
    by (simp add: ev Suc.IH [OF st0] count_list_notin [OF no])
qed

subsection \<open>Accuracies and the best snapshot\<close>

lemma count_equal_map:
  "count_equal (map f b) (map snd b) = length (filter (\<lambda>(x, l). f (x, l) = l) b)"
  by (induction b) (auto simp: count_equal_def)

lemma map_nth_fun: "map (\<lambda>j. f (xs ! j)) [0..<length xs] = map f xs"
  by (rule nth_equalityI) simp_all

lemma count_equal_rowwise:
  assumes "eval_rowwise T"
  shows "count_equal (map (argmax T (snd (forward T False w (map fst b)))) [0..<length b]) (map snd b)
           = length (filter (\<lambda>(x, l). predict T w x = l) b)"
proof -
  have "map (argmax T (snd (forward T False w (map fst b)))) [0..<length b]
          = map (\<lambda>j. predict T w (fst (b ! j))) [0..<length b]"
    using assms by (auto simp: eval_rowwise_def)
  also have "\<dots> = map (\<lambda>p. predict T w (fst p)) b"
    by (rule map_nth_fun)
  finally show ?thesis
    by (simp add: count_equal_map case_prod_unfold)
qed

lemma fold_run_batch_val_corrects:
  assumes "eval_pure T" "eval_rowwise T"
  shows "\<not> training st \<Longrightarrow>
     running_corrects (fold (run_batch T Val) bs st) =
       running_corrects st + length (filter (\<lambda>(x, l). predict T (state_dict st) x = l) (concat bs))"
proof (induction bs arbitrary: st)
  case Nil
  then show ?case by simp
next
  case (Cons b bs)
  have sd: "state_dict (run_batch T Val b st) = state_dict st"
    using assms(1) Cons.prems by (simp add: run_batch_val eval_pure_def)
  have tr: "\<not> training (run_batch T Val b st)"
    using Cons.prems by (simp add: run_batch_frame)
  show ?case
    using Cons.prems
    by (simp add: Cons.IH [OF tr] sd run_batch_sums count_equal_rowwise [OF assms(2)])
qed

lemma length_filter_mset: "mset xs = mset ys \<Longrightarrow> length (filter P xs) = length (filter P ys)"
  by (metis mset_filter size_mset)

lemma run_phase_val_measures:
  assumes "eval_pure T" "eval_rowwise T"
    and "mset (concat (dataloaders G Val e)) = mset (image_datasets G Val)"
    and r: "run_phase T G e Val st = Inr st'"
  shows "epoch_acc st' = val_accuracy T G (state_dict st)" "state_dict st' = state_dict st"
proof -
  have "\<not> training (phase_begin T Val st)"
    by (simp add: phase_begin_fields)
  from fold_run_batch_val_corrects [OF assms(1,2) this, of "dataloaders G Val e"]
  show "epoch_acc st' = val_accuracy T G (state_dict st)"
    by (simp add: run_phase_Inr(4) [OF r] phase_begin_fields val_accuracy_def
        length_filter_mset [OF assms(3)])
  show "state_dict st' = state_dict st"
    using assms(1) by (simp add: run_phase_Inr(7) [OF r] fold_run_batch_val_state_dict phase_begin_fields)
qed

lemma run_epoch_best:
  assumes "run_epoch T G n e st = Inr st'"
  shows "best_acc st' = (if best_acc st < epoch_acc st' then epoch_acc st' else best_acc st)"
    and "best_model_wts st' = (if best_acc st < epoch_acc st' then state_dict st' else best_model_wts st)"
proof -
  from assms obtain st1 st2 where
    p1: "run_phase T G e Train (emit [PrintEpoch e (int n - 1), PrintDashes] st) = Inr st1"
    and p2: "run_phase T G e Val st1 = Inr st2"
    and st': "st' = emit [PrintPreds (preds st2)] st2"
    by (rule run_epoch_Inr)
  have b1: "best_acc st1 = best_acc st" "best_model_wts st1 = best_model_wts st"
    by (simp_all add: run_phase_Inr(11,12) [OF p1])
  show "best_acc st' = (if best_acc st < epoch_acc st' then epoch_acc st' else best_acc st)"
    by (simp add: st' run_phase_Inr(11) [OF p2] b1)
  show "best_model_wts st' = (if best_acc st < epoch_acc st' then state_dict st' else best_model_wts st)"
    by (simp add: st' run_phase_Inr(12) [OF p2] b1)
qed

lemma run_epoch_measures:
  assumes "eval_pure T" "eval_rowwise T"
    and "mset (concat (dataloaders G Val e)) = mset (image_datasets G Val)"
    and "run_epoch T G n e st = Inr st'"
  shows "epoch_acc st' = val_accuracy T G (state_dict st')"
proof -
  from assms(4) obtain st1 st2 where
    p2: "run_phase T G e Val st1 = Inr st2"
    and st': "st' = emit [PrintPreds (preds st2)] st2"
    by (rule run_epoch_Inr)
  from run_phase_val_measures [OF assms(1,2,3) p2] show ?thesis
    by (simp add: st')
qed

lemma run_phase_returns:
  "dataset_sizes G ph \<noteq> 0 \<Longrightarrow> dataloaders G ph e \<noteq> [] \<Longrightarrow> \<exists>st'. run_phase T G e ph st = Inr st'"
  by (simp add: run_phase_def Let_def)

lemma run_epoch_returns:
  assumes "dataset_sizes G Train \<noteq> 0" "dataset_sizes G Val \<noteq> 0"
    "dataloaders G Train e \<noteq> []" "dataloaders G Val e \<noteq> []"
  shows "\<exists>st'. run_epoch T G n e st = Inr st'"
proof -
  obtain st1 where p1: "run_phase T G e Train (emit [PrintEpoch e (int n - 1), PrintDashes] st) = Inr st1"
    using run_phase_returns [OF assms(1,3)] by blast
  obtain st2 where p2: "run_phase T G e Val st1 = Inr st2"
    using run_phase_returns [OF assms(2,4)] by blast
  show ?thesis
    by (simp add: run_epoch_def p1 p2)
qed

lemma loaders_ok_D:
  assumes "loaders_ok G n" "e < n"
  shows "dataset_sizes G Train \<noteq> 0" "dataset_sizes G Val \<noteq> 0"
    "dataloaders G Train e \<noteq> []" "dataloaders G Val e \<noteq> []"
    "mset (concat (dataloaders G Val e)) = mset (image_datasets G Val)"
proof -
  from assms show "dataset_sizes G Train \<noteq> 0" "dataset_sizes G Val \<noteq> 0"
    by (simp_all add: loaders_ok_def dataset_sizes_def)
  from assms show "dataloaders G Train e \<noteq> []"
    and ms: "mset (concat (dataloaders G Val e)) = mset (image_datasets G Val)"
    by (simp_all add: loaders_ok_def list_all_iff)
  from assms have "image_datasets G Val \<noteq> []"
    by (simp add: loaders_ok_def)
  with ms show "dataloaders G Val e \<noteq> []"
    by auto
qed

lemma epochs_state_returns:
  assumes "loaders_ok G n"
  shows "k \<le> n \<Longrightarrow> \<exists>st. epochs_state T G m n k = Inr st"
proof (induction k)
  case 0
  then show ?case by (simp add: epochs_state_0)
next
  case (Suc k)
  then obtain st where st: "epochs_state T G m n k = Inr st" by auto
  from Suc.prems have "k < n" by simp
  from run_epoch_returns [OF loaders_ok_D(1-4) [OF assms this]]
  obtain st' where "run_epoch T G n k st = Inr st'" by blast
  then show ?case by (simp add: epochs_state_Suc st)
qed

lemma epochs_state_prefix:
  "epochs_state T G m n (Suc k) = Inr st' \<Longrightarrow>
     \<exists>st. epochs_state T G m n k = Inr st \<and> run_epoch T G n k st = Inr st'"
  by (auto simp: epochs_state_Suc split: sum.splits)

text \<open>The best snapshot after \<open>k\<close> epochs.\<close>

lemma best_after_epochs:
  "epochs_state T G m n k = Inr st \<Longrightarrow>
     (if \<exists>e<k. 0 < epoch_val_acc T G m n e
      then \<exists>e<k. best_model_wts st = epoch_snapshot T G m n e \<and>
                  best_acc st = epoch_val_acc T G m n e \<and>
                  (\<forall>i<k. epoch_val_acc T G m n i \<le> epoch_val_acc T G m n e) \<and>
                  (\<forall>i<e. epoch_val_acc T G m n i < epoch_val_acc T G m n e)
      else best_model_wts st = state_dict m \<and> best_acc st = 0)"
proof (induction k arbitrary: st)
  case 0
  then show ?case by (auto simp: epochs_state_0 train_init_def)
next
  case (Suc k)
  let ?A = "epoch_val_acc T G m n" and ?W = "epoch_snapshot T G m n"
  from epochs_state_prefix [OF Suc.prems] obtain st0 where
    st0: "epochs_state T G m n k = Inr st0" and step: "run_epoch T G n k st0 = Inr st"
    by blast
  have Ak: "?A k = epoch_acc st" and Wk: "?W k = state_dict st"
    by (simp_all add: epoch_val_acc_def epoch_snapshot_def Suc.prems)
  note best = run_epoch_best [OF step]
  note IH = Suc.IH [OF st0]
  have below: "\<forall>i<k. ?A i \<le> best_acc st0"
  proof (cases "\<exists>e<k. 0 < ?A e")
    case True
    with IH show ?thesis by auto
  next
    case False
    then have "\<forall>i<k. ?A i \<le> 0" by (meson not_less)
    moreover from IH False have "best_acc st0 = 0" by simp
    ultimately show ?thesis by simp
  qed
  show ?case
  proof (cases "best_acc st0 < epoch_acc st")
    case True
    have pos: "0 < ?A k"
    proof (cases "\<exists>e<k. 0 < ?A e")
      case True
      with IH obtain e where "e < k" "best_acc st0 = ?A e" "\<forall>i<k. ?A i \<le> ?A e" by auto
      with True \<open>best_acc st0 < epoch_acc st\<close> show ?thesis
        by (metis Ak order_less_le_trans less_trans)
    next
      case False
      with IH \<open>best_acc st0 < epoch_acc st\<close> show ?thesis by (simp add: Ak)
    qed
    have "\<forall>i<k. ?A i < ?A k"
      using below True by (auto simp: Ak)
    then have "\<forall>i<Suc k. ?A i \<le> ?A k"
      by (auto simp: less_Suc_eq)
    with pos True best \<open>\<forall>i<k. ?A i < ?A k\<close> show ?thesis
      by (auto simp: Ak Wk intro!: exI [of _ k])
  next
    case False
    then have same: "best_acc st = best_acc st0" "best_model_wts st = best_model_wts st0"
      and le: "?A k \<le> best_acc st0"
      using best by (simp_all add: Ak)
    show ?thesis
    proof (cases "\<exists>e<k. 0 < ?A e")
      case True
      with IH obtain e where e: "e < k" "best_model_wts st0 = ?W e" "best_acc st0 = ?A e"
        "\<forall>i<k. ?A i \<le> ?A e" "\<forall>i<e. ?A i < ?A e" by auto
      from True have ex: "\<exists>e<Suc k. 0 < ?A e" by (auto simp: less_Suc_eq)
      from e le have "\<forall>i<Suc k. ?A i \<le> ?A e" by (auto simp: less_Suc_eq)
      with e same ex show ?thesis
        by (auto simp: less_Suc_eq intro!: exI [of _ e])
    next
      case False
      with IH have entry: "best_model_wts st0 = state_dict m" "best_acc st0 = 0" by auto
      with le False have nex: "\<not> (\<exists>e<Suc k. 0 < ?A e)" by (auto simp: less_Suc_eq)
      from entry same show ?thesis by (subst if_not_P [OF nex]) simp
    qed
  qed
qed

lemma epoch_measured:
  assumes "loaders_ok G n" "eval_pure T" "eval_rowwise T" "e < n"
  shows "epoch_val_acc T G m n e = val_accuracy T G (epoch_snapshot T G m n e)"
proof -
  from assms(4) have "Suc e \<le> n" by simp
  from epochs_state_returns [OF assms(1) this]
  obtain st' where st': "epochs_state T G m n (Suc e) = Inr st'" by blast
  from epochs_state_prefix [OF st'] obtain st where "run_epoch T G n e st = Inr st'" by blast
  from run_epoch_measures [OF assms(2,3) loaders_ok_D(5) [OF assms(1,4)] this]
  show ?thesis
    by (simp add: epoch_val_acc_def epoch_snapshot_def st')
qed

lemma val_accuracy_nonneg: "0 \<le> val_accuracy T G w"
  by (simp add: val_accuracy_def)

lemma state_dict_train_finish: "state_dict (train_finish n st) = best_model_wts st"
  by (simp add: train_finish_def plot_learning_curve_def Let_def)

subsection \<open>The loops of visualize_model\<close>

lemma emit_vis_simps [simp]:
  "was_training (emit es st) = was_training st"
  "images_so_far (emit es st) = images_so_far st"
  "total_cnt (emit es st) = total_cnt st"
  "correct (emit es st) = correct st"
  "probability (emit es st) = probability st"
  "prob_estimates (emit es st) = prob_estimates st"
  "pred_estimates (emit es st) = pred_estimates st"
  "pred_groundtruth (emit es st) = pred_groundtruth st"
  by (simp_all add: emit_def)

text \<open>One sample: what \<open>show_sample\<close> does when it does not raise.\<close>

lemma show_sample_step:
  assumes "ps ! j < length (class_names G)" and "labels \<noteq> []"
    and "images_so_far st + 1 \<le> (n div 6) * 6"
  shows "\<exists>st'. show_sample G n ps labels j st
                 = Inr (if images_so_far st + 1 = n then Return st' else Next st') \<and>
           images_so_far st' = images_so_far st + 1 \<and>
           pred_groundtruth st' = pred_groundtruth st @ [labels ! j] \<and>
           pred_estimates st' = pred_estimates st @ [ps ! j] \<and>
           prob_estimates st' = prob_estimates st @ [probability st'] \<and>
           was_training st' = was_training st \<and>
           state_dict st' = state_dict st \<and>
           training st' = (if images_so_far st + 1 = n then was_training st else training st) \<and>
           events st' = events st @ sample_events G n (ps ! j) st' @
              (if images_so_far st + 1 = n then final_events st' else [])"
  using assms
  by (simp add: show_sample_def Let_def compute_roc_metrics_def final_events_def sample_events_def)

lemma count_sample_events [simp]:
  "count_list (sample_events G n p st) Imshow = 1"
  "count_list (sample_events G n p st) (Forward False) = 0"
  "filter is_roc (sample_events G n p st) = []"
  "filter is_array_print (sample_events G n p st) = []"
  by (simp_all add: sample_events_def)

lemma inner_loop:
  assumes "\<forall>j\<in>set js. ps ! j < length (class_names G)"
    and "js \<noteq> [] \<longrightarrow> labels \<noteq> []"
    and "images_so_far st < n"
    and "min n (images_so_far st + length js) \<le> (n div 6) * 6"
  shows "\<exists>st' new.
           for_loop (show_sample G n ps labels) js st
             = Inr (if n \<le> images_so_far st + length js then Return st' else Next st') \<and>
           images_so_far st' = min n (images_so_far st + length js) \<and>
           pred_groundtruth st' = pred_groundtruth st @ take (n - images_so_far st) (map ((!) labels) js) \<and>
           length (prob_estimates st') = length (prob_estimates st) + min (n - images_so_far st) (length js) \<and>
           was_training st' = was_training st \<and>
           training st' = (if n \<le> images_so_far st + length js then was_training st else training st) \<and>
           events st' = events st @ new @
              (if n \<le> images_so_far st + length js then final_events st' else []) \<and>
           count_list new Imshow = min (n - images_so_far st) (length js) \<and>
           count_list new (Forward False) = 0 \<and>
           filter is_roc new = [] \<and> filter is_array_print new = []"
  using assms
proof (induction js arbitrary: st)
  case Nil
  then show ?case by simp
next
  case (Cons j js)
  from Cons.prems have pj: "ps ! j < length (class_names G)" and ne: "labels \<noteq> []" by simp_all
  from Cons.prems(3,4) have cell: "images_so_far st + 1 \<le> (n div 6) * 6" by simp
  from show_sample_step [OF pj ne cell] obtain st1 where
    step: "show_sample G n ps labels j st
             = Inr (if images_so_far st + 1 = n then Return st1 else Next st1)"
    and f1: "images_so_far st1 = images_so_far st + 1"
      "pred_groundtruth st1 = pred_groundtruth st @ [labels ! j]"
      "prob_estimates st1 = prob_estimates st @ [probability st1]"
      "was_training st1 = was_training st"
      "training st1 = (if images_so_far st + 1 = n then was_training st else training st)"
      "events st1 = events st @ sample_events G n (ps ! j) st1 @
              (if images_so_far st + 1 = n then final_events st1 else [])"
    by blast
  show ?case
  proof (cases "images_so_far st + 1 = n")
    case True
    then have d: "n - images_so_far st = Suc 0" by arith
    from True step f1 show ?thesis
      by (intro exI [of _ st1] exI [of _ "sample_events G n (ps ! j) st1"]) (simp add: d)
  next
    case False
    with Cons.prems(3) have lt: "images_so_far st1 < n" by (simp add: f1)
    from Cons.prems have "\<forall>j\<in>set js. ps ! j < length (class_names G)" "js \<noteq> [] \<longrightarrow> labels \<noteq> []"
      using ne by simp_all
    moreover note lt
    moreover from Cons.prems(4) have "min n (images_so_far st1 + length js) \<le> (n div 6) * 6"
      by (simp add: f1)
    ultimately obtain st' new where
      loop: "for_loop (show_sample G n ps labels) js st1
             = Inr (if n \<le> images_so_far st1 + length js then Return st' else Next st')"
      and f2: "images_so_far st' = min n (images_so_far st1 + length js)"
        "pred_groundtruth st' = pred_groundtruth st1 @ take (n - images_so_far st1) (map ((!) labels) js)"
        "length (prob_estimates st') = length (prob_estimates st1) + min (n - images_so_far st1) (length js)"
        "was_training st' = was_training st1"
        "training st' = (if n \<le> images_so_far st1 + length js then was_training st1 else training st1)"
        "events st' = events st1 @ new @
              (if n \<le> images_so_far st1 + length js then final_events st' else [])"
        "count_list new Imshow = min (n - images_so_far st1) (length js)"
        "count_list new (Forward False) = 0"
        "filter is_roc new = []" "filter is_array_print new = []"
      using Cons.IH [of st1] by blast
    from False Cons.prems(3) have d: "n - images_so_far st = Suc (n - Suc (images_so_far st))"
      by arith
    from False step loop f1 f2 Cons.prems(3) show ?thesis
      by (intro exI [of _ st'] exI [of _ "sample_events G n (ps ! j) st1 @ new"])
        (simp add: d)
  qed
qed

lemma batch_step:
  assumes "named_predictions T G" and "images_so_far st < n"
    and "min n (images_so_far st + length batch) \<le> (n div 6) * 6"
  shows "\<exists>st' new.
           show_batch T G n batch st
             = Inr (if n \<le> images_so_far st + length batch then Return st' else Next st') \<and>
           images_so_far st' = min n (images_so_far st + length batch) \<and>
           pred_groundtruth st' = pred_groundtruth st @ take (n - images_so_far st) (map snd batch) \<and>
           length (prob_estimates st') = length (prob_estimates st) + min (n - images_so_far st) (length batch) \<and>
           was_training st' = was_training st \<and>
           training st' = (if n \<le> images_so_far st + length batch then was_training st else training st) \<and>
           events st' = events st @ new @
              (if n \<le> images_so_far st + length batch then final_events st' else []) \<and>
           count_list new Imshow = min (n - images_so_far st) (length batch) \<and>
           count_list new (Forward False) = 1 \<and>
           filter is_roc new = [] \<and> filter is_array_print new = []"
proof -
  obtain w1 outputs where fw: "forward T (training st) (state_dict st) (map fst batch) = (w1, outputs)"
    by (cases "forward T (training st) (state_dict st) (map fst batch)")
  let ?ps = "map (argmax T outputs) [0..<length batch]"
  let ?st1 = "emit [Forward False] (st\<lparr>state_dict := w1\<rparr>)"
  have sb: "show_batch T G n batch st
              = for_loop (show_sample G n ?ps (map snd batch)) [0..<length batch] ?st1"
    by (simp add: show_batch_def Let_def fw)
  have a1: "\<forall>j\<in>set [0..<length batch]. ?ps ! j < length (class_names G)"
    using assms(1) by (simp add: named_predictions_def)
  have a2: "[0..<length batch] \<noteq> [] \<longrightarrow> map snd batch \<noteq> []"
    by simp
  have a3: "images_so_far ?st1 < n"
    using assms(2) by simp
  have a4: "min n (images_so_far ?st1 + length [0..<length batch]) \<le> (n div 6) * 6"
    using assms(3) by simp
  have mn: "map ((!) (map snd batch)) [0..<length batch] = map snd batch"
    using map_nth [of "map snd batch"] by simp
  from inner_loop [OF a1 a2 a3 a4] obtain st' new where
    "for_loop (show_sample G n ?ps (map snd batch)) [0..<length batch] ?st1
       = Inr (if n \<le> images_so_far ?st1 + length [0..<length batch] then Return st' else Next st')"
    "images_so_far st' = min n (images_so_far ?st1 + length [0..<length batch])"
    "pred_groundtruth st' = pred_groundtruth ?st1 @
        take (n - images_so_far ?st1) (map ((!) (map snd batch)) [0..<length batch])"
    "length (prob_estimates st') = length (prob_estimates ?st1)
        + min (n - images_so_far ?st1) (length [0..<length batch])"
    "was_training st' = was_training ?st1"
    "training st' = (if n \<le> images_so_far ?st1 + length [0..<length batch]
                     then was_training ?st1 else training ?st1)"
    "events st' = events ?st1 @ new @
        (if n \<le> images_so_far ?st1 + length [0..<length batch] then final_events st' else [])"
    "count_list new Imshow = min (n - images_so_far ?st1) (length [0..<length batch])"
    "count_list new (Forward False) = 0"
    "filter is_roc new = []" "filter is_array_print new = []"
    by blast
  then show ?thesis
    unfolding mn sb
    by (intro exI [of _ st'] exI [of _ "Forward False # new"]) simp
qed

lemma outer_loop:
  assumes "named_predictions T G"
  shows "images_so_far st < n \<Longrightarrow>
         min n (images_so_far st + length (concat bs)) \<le> (n div 6) * 6 \<Longrightarrow>
         \<exists>st' new.
           for_loop (show_batch T G n) bs st
             = Inr (if n \<le> images_so_far st + length (concat bs) then Return st' else Next st') \<and>
           images_so_far st' = min n (images_so_far st + length (concat bs)) \<and>
           pred_groundtruth st' = pred_groundtruth st @ take (n - images_so_far st) (map snd (concat bs)) \<and>
           length (prob_estimates st')
             = length (prob_estimates st) + min (n - images_so_far st) (length (concat bs)) \<and>
           was_training st' = was_training st \<and>
           training st' = (if n \<le> images_so_far st + length (concat bs) then was_training st else training st) \<and>
           events st' = events st @ new @
              (if n \<le> images_so_far st + length (concat bs) then final_events st' else []) \<and>
           count_list new Imshow = min (n - images_so_far st) (length (concat bs)) \<and>
           (images_so_far st + length (concat bs) < n \<longrightarrow> count_list new (Forward False) = length bs) \<and>
           filter is_roc new = [] \<and> filter is_array_print new = []"
proof (induction bs arbitrary: st)
  case Nil
  then show ?case by simp
next
  case (Cons b bs)
  let ?k = "images_so_far st"
  from Cons.prems(2) have cell: "min n (?k + length b) \<le> (n div 6) * 6" by simp
  from batch_step [OF assms Cons.prems(1) cell] obtain st1 new1 where
    step: "show_batch T G n b st = Inr (if n \<le> ?k + length b then Return st1 else Next st1)"
    and f1: "images_so_far st1 = min n (?k + length b)"
      "pred_groundtruth st1 = pred_groundtruth st @ take (n - ?k) (map snd b)"
      "length (prob_estimates st1) = length (prob_estimates st) + min (n - ?k) (length b)"
      "was_training st1 = was_training st"
      "training st1 = (if n \<le> ?k + length b then was_training st else training st)"
      "events st1 = events st @ new1 @ (if n \<le> ?k + length b then final_events st1 else [])"
      "count_list new1 Imshow = min (n - ?k) (length b)"
      "count_list new1 (Forward False) = 1"
      "filter is_roc new1 = []" "filter is_array_print new1 = []"
    by blast
  show ?case
  proof (cases "n \<le> ?k + length b")
    case True
    then have le: "n - ?k \<le> length b" "n \<le> ?k + (length b + length (concat bs))" by arith+
    from True step f1 le show ?thesis
      by (intro exI [of _ st1] exI [of _ new1]) (simp add: min_absorb1)
  next
    case False
    then have k1: "images_so_far st1 = ?k + length b" and lt: "images_so_far st1 < n"
      by (simp_all add: f1)
    from Cons.prems(2) have "min n (images_so_far st1 + length (concat bs)) \<le> (n div 6) * 6"
      by (simp add: k1 add.assoc)
    from Cons.IH [OF lt this] obtain st' new where
      loop: "for_loop (show_batch T G n) bs st1
               = Inr (if n \<le> images_so_far st1 + length (concat bs) then Return st' else Next st')"
      and f2: "images_so_far st' = min n (images_so_far st1 + length (concat bs))"
        "pred_groundtruth st' = pred_groundtruth st1 @ take (n - images_so_far st1) (map snd (concat bs))"
        "length (prob_estimates st')
           = length (prob_estimates st1) + min (n - images_so_far st1) (length (concat bs))"
        "was_training st' = was_training st1"
        "training st' = (if n \<le> images_so_far st1 + length (concat bs) then was_training st1 else training st1)"
        "events st' = events st1 @ new @
           (if n \<le> images_so_far st1 + length (concat bs) then final_events st' else [])"
        "count_list new Imshow = min (n - images_so_far st1) (length (concat bs))"
        "images_so_far st1 + length (concat bs) < n \<longrightarrow> count_list new (Forward False) = length bs"
        "filter is_roc new = []" "filter is_array_print new = []"
      by blast
    from False have d: "n - ?k - length b = n - (?k + length b)" "length b < n - ?k"
      "min (n - ?k) (length b) = length b" by arith+
    have mins: "min (n - ?k) (length b + length (concat bs))
                  = length b + min (n - (?k + length b)) (length (concat bs))"
      using False by arith
    from False step loop show ?thesis
      by (intro exI [of _ st'] exI [of _ "new1 @ new"])
        (simp add: f1 f2 k1 d mins add.assoc)
  qed
qed

lemma vis_init_fields:
  "images_so_far (vis_init m) = 0" "pred_groundtruth (vis_init m) = []"
  "prob_estimates (vis_init m) = []" "was_training (vis_init m) = training m"
  "training (vis_init m) = False" "events (vis_init m) = events m @ [ModelTrain False, Figure]"
  by (simp_all add: vis_init_def)

lemma vis_objects_fields:
  "events (vis_objects st) = events st" "training (vis_objects st) = training st"
  "state_dict (vis_objects st) = state_dict st"
  by (simp_all add: vis_objects_def)

subsection \<open>Loading\<close>

lemma ImageFolder_fails:
  "missing_or_empty fs x \<Longrightarrow> ImageFolder fs (os_path_join data_dir (phase_name x)) = Inl DataLoadError"
  by (auto simp: missing_or_empty_def ImageFolder_def split: option.splits)

lemma ImageFolder_loads:
  "\<not> missing_or_empty fs x \<Longrightarrow>
     \<exists>d. ImageFolder fs (os_path_join data_dir (phase_name x)) = Inr d \<and> classes d = class_folders fs x"
  by (auto simp: missing_or_empty_def ImageFolder_def class_folders_def split: option.splits)

subsection \<open>The concrete instance meets the assumptions\<close>

lemma Inr_projr: "\<not> isl x \<Longrightarrow> x = Inr (projr x)"
  by (cases x) simp_all

lemma toy_eval_pure: "eval_pure toy_torch"
  by (simp add: eval_pure_def toy_torch_def)

lemma toy_eval_rowwise: "eval_rowwise toy_torch"
  by (simp add: eval_rowwise_def predict_def toy_torch_def)

lemma toy_loaders_ok: "loaders_ok toy_globals 2"
  by code_simp

lemma toy_named_predictions:
  "named_predictions toy_torch vis_globals" "named_predictions toy_torch toy_globals"
proof -
  have "n mod 2 < Suc (Suc 0)" for n :: nat by arith
  then show "named_predictions toy_torch vis_globals" "named_predictions toy_torch toy_globals"
    by (simp_all add: named_predictions_def toy_torch_def vis_globals_def toy_globals_def)
qed

subsection \<open>The claims\<close>

text \<open>
  C1. A run of \<^verbatim>\<open>train_model\<close> returns, and the model it returns carries the best
  snapshot: after the last epoch the live parameters are overwritten with
  \<^verbatim>\<open>best_model_wts\<close>. The validation accuracy of the returned parameters is at least the
  validation accuracy of the parameters the model had at the end of each epoch of the
  run. This holds for every number of epochs, under the assumptions \<open>loaders_ok\<close>,
  \<open>eval_pure\<close> and \<open>eval_rowwise\<close> on the loaders and the framework.
\<close>

theorem C1_returns_best_snapshot:
  assumes "loaders_ok G n" and "eval_pure T" and "eval_rowwise T"
  shows "\<exists>st. epochs_state T G m n n = Inr st \<and>
           train_model T G m n = Inr (train_finish n st) \<and>
           state_dict (train_finish n st) = best_model_wts st \<and>
           (\<forall>e<n. val_accuracy T G (epoch_snapshot T G m n e)
                     \<le> val_accuracy T G (state_dict (train_finish n st)))"
proof -
  let ?A = "epoch_val_acc T G m n" and ?W = "epoch_snapshot T G m n"
  from epochs_state_returns [OF assms(1) order_refl]
  obtain st where st: "epochs_state T G m n n = Inr st" by blast
  have run: "train_model T G m n = Inr (train_finish n st)"
    by (simp add: train_model_def st)
  have meas: "?A e = val_accuracy T G (?W e)" if "e < n" for e
    by (rule epoch_measured [OF assms that])
  have "val_accuracy T G (?W e) \<le> val_accuracy T G (best_model_wts st)" if e: "e < n" for e
  proof (cases "\<exists>i<n. 0 < ?A i")
    case True
    with best_after_epochs [OF st] obtain b where b: "b < n" "best_model_wts st = ?W b"
      "\<forall>i<n. ?A i \<le> ?A b" by auto
    from b(3) e have "?A e \<le> ?A b" by simp
    then show ?thesis
      by (simp add: meas [OF e] meas [OF b(1)] b(2))
  next
    case False
    with e have "?A e \<le> 0" by (meson not_less)
    then have "val_accuracy T G (?W e) \<le> 0" by (simp add: meas [OF e])
    also have "0 \<le> val_accuracy T G (best_model_wts st)" by (rule val_accuracy_nonneg)
    finally show ?thesis .
  qed
  with st run show ?thesis
    by (simp add: state_dict_train_finish)
qed

theorem C1_witness:
  "loaders_ok toy_globals 2 \<and> eval_pure toy_torch \<and> eval_rowwise toy_torch \<and>
   (\<exists>st. epochs_state toy_torch toy_globals toy_objects 2 2 = Inr st \<and>
      train_model toy_torch toy_globals toy_objects 2 = Inr (train_finish 2 st) \<and>
      state_dict (train_finish 2 st) = best_model_wts st \<and>
      (\<forall>e<2. val_accuracy toy_torch toy_globals (epoch_snapshot toy_torch toy_globals toy_objects 2 e)
                \<le> val_accuracy toy_torch toy_globals (state_dict (train_finish 2 st))))"
  using C1_returns_best_snapshot [OF toy_loaders_ok toy_eval_pure toy_eval_rowwise, of toy_objects]
    toy_loaders_ok toy_eval_pure toy_eval_rowwise
  by blast

text \<open>
  C2, as amended. At the end of an epoch the best snapshot is replaced by the live
  parameters if and only if the epoch's validation accuracy strictly exceeds the best
  accuracy so far. Hence, once some epoch has had a validation accuracy above 0.0, the
  best snapshot is the one of the earliest epoch that reached the maximum validation
  accuracy observed so far. While no epoch has exceeded 0.0, the best snapshot is still
  the state the model had at entry, which is the snapshot of no epoch.
\<close>

theorem C2_best_snapshot_invariant:
  "epochs_state T G m n k = Inr st \<Longrightarrow>
     (\<forall>st'. run_epoch T G n k st = Inr st' \<longrightarrow>
        best_model_wts st' = (if best_acc st < epoch_acc st' then state_dict st' else best_model_wts st) \<and>
        best_acc st' = (if best_acc st < epoch_acc st' then epoch_acc st' else best_acc st)) \<and>
     (if \<exists>e<k. 0 < epoch_val_acc T G m n e
      then \<exists>e<k. best_model_wts st = epoch_snapshot T G m n e \<and>
                  best_acc st = epoch_val_acc T G m n e \<and>
                  (\<forall>i<k. epoch_val_acc T G m n i \<le> epoch_val_acc T G m n e) \<and>
                  (\<forall>i<e. epoch_val_acc T G m n i < epoch_val_acc T G m n e)
      else best_model_wts st = state_dict m \<and> best_acc st = 0)"
  using run_epoch_best [of T G n k st] best_after_epochs [of T G m n k st] by blast

theorem C2_witness:
  "\<not> isl (epochs_state toy_torch toy_globals toy_objects 2 1) \<and>
   \<not> isl (run_epoch toy_torch toy_globals 2 1 (projr (epochs_state toy_torch toy_globals toy_objects 2 1))) \<and>
   \<not> best_acc (projr (epochs_state toy_torch toy_globals toy_objects 2 1))
       < epoch_acc (projr (run_epoch toy_torch toy_globals 2 1
                             (projr (epochs_state toy_torch toy_globals toy_objects 2 1)))) \<and>
   best_model_wts (projr (run_epoch toy_torch toy_globals 2 1
                             (projr (epochs_state toy_torch toy_globals toy_objects 2 1))))
     = best_model_wts (projr (epochs_state toy_torch toy_globals toy_objects 2 1)) \<and>
   0 < epoch_val_acc toy_torch toy_globals toy_objects 2 0 \<and>
   best_model_wts (projr (epochs_state toy_torch toy_globals toy_objects 2 1))
     = epoch_snapshot toy_torch toy_globals toy_objects 2 0"
proof -
  let ?s = "epochs_state toy_torch toy_globals toy_objects 2 1"
  let ?r = "run_epoch toy_torch toy_globals 2 1 (projr ?s)"
  have s: "\<not> isl ?s" by code_simp
  have r: "\<not> isl ?r" by code_simp
  have lt: "\<not> best_acc (projr ?s) < epoch_acc (projr ?r)" by code_simp
  have pos: "0 < epoch_val_acc toy_torch toy_globals toy_objects 2 0" by code_simp
  then have ex: "\<exists>e<1. 0 < epoch_val_acc toy_torch toy_globals toy_objects 2 e" by simp
  note inv = C2_best_snapshot_invariant [OF Inr_projr [OF s]]
  from inv Inr_projr [OF r] lt
  have keep: "best_model_wts (projr ?r) = best_model_wts (projr ?s)"
    by (metis (full_types))
  from inv ex have "best_model_wts (projr ?s) = epoch_snapshot toy_torch toy_globals toy_objects 2 0"
    by (simp only: if_True less_Suc0 One_nat_def) blast
  with s r lt keep pos show ?thesis by blast
qed

theorem C2_counterexample:
  "\<not> isl (epochs_state toy_torch toy_globals_unseen toy_objects 1 1) \<and>
   epoch_val_acc toy_torch toy_globals_unseen toy_objects 1 0 = 0 \<and>
   epoch_snapshot toy_torch toy_globals_unseen toy_objects 1 0 = 2 \<and>
   best_model_wts (projr (epochs_state toy_torch toy_globals_unseen toy_objects 1 1)) = 0 \<and>
   best_model_wts (projr (epochs_state toy_torch toy_globals_unseen toy_objects 1 1))
     \<noteq> epoch_snapshot toy_torch toy_globals_unseen toy_objects 1 0"
  by code_simp

text \<open>
  C3. The claim: the score appended for each sample is the cumulative running accuracy
  over the samples shown so far. The code adds, for every sample, the size of the whole
  batch to \<^verbatim>\<open>total\<close> and the number of correct predictions of the whole batch to
  \<^verbatim>\<open>correct\<close> (lines 297-298 stand inside the loop over the samples). On seven batches
  of four images each, with the second and third prediction of every batch correct, all
  24 scores handed to \<^verbatim>\<open>compute_roc_metrics\<close> are 50, while the running accuracy over
  the samples shown so far starts 0, 50, 66.7, 50.
\<close>

theorem C3_scores_at_failing_input:
  "\<not> isl (visualize_loop toy_torch vis_globals 0 toy_trained 24) \<and>
   is_Return (projr (visualize_loop toy_torch vis_globals 0 toy_trained 24)) \<and>
   pred_estimates (flow_state (projr (visualize_loop toy_torch vis_globals 0 toy_trained 24)))
     = concat (replicate 6 [1, 1, 0, 0]) \<and>
   pred_groundtruth (flow_state (projr (visualize_loop toy_torch vis_globals 0 toy_trained 24)))
     = concat (replicate 6 [0, 1, 0, 1]) \<and>
   prob_estimates (flow_state (projr (visualize_loop toy_torch vis_globals 0 toy_trained 24)))
     = replicate 24 50 \<and>
   take 4 (spec_running_accuracy 0 0 (zip (concat (replicate 6 [1, 1, 0, 0])) (concat (replicate 6 [0, 1, 0, 1]))))
     = [0, 50, 200 / 3, 50]"
  by code_simp



text \<open>
  C5. A VAL phase that returns has, for each batch, called \<^verbatim>\<open>optimizer.zero_grad()\<close> and
  the model with gradient tracking disabled, and nothing else of the framework: no
  \<^verbatim>\<open>backward\<close>, no \<^verbatim>\<open>optimizer.step\<close>. The optimizer and the scheduler are as they
  were, and so is the model's state, given that a forward pass in evaluation mode writes
  none of it (\<open>eval_pure\<close>).
\<close>

theorem C5_val_phase_frame:
  "run_phase T G e Val st = Inr st' \<Longrightarrow>
     events st' = events st @ [ModelTrain False] @
        concat (replicate (length (dataloaders G Val e)) [ZeroGrad, Forward False]) @
        [PrintPhase Val (epoch_loss st') (epoch_acc st'), PrintPreds (preds st')] \<and>
     optimizer st' = optimizer st \<and>
     scheduler st' = scheduler st \<and>
     (eval_pure T \<longrightarrow> state_dict st' = state_dict st)"
proof (intro conjI impI)
  assume r: "run_phase T G e Val st = Inr st'"
  show "events st' = events st @ [ModelTrain False] @
        concat (replicate (length (dataloaders G Val e)) [ZeroGrad, Forward False]) @
        [PrintPhase Val (epoch_loss st') (epoch_acc st'), PrintPreds (preds st')]"
    using run_phase_events [OF r] by (simp add: batch_events_def)
  show "optimizer st' = optimizer st"
    by (simp add: run_phase_Inr(8) [OF r] fold_run_batch_val_optimizer phase_begin_val)
  show "scheduler st' = scheduler st"
    by (simp add: run_phase_Inr(9) [OF r] fold_run_batch_frame phase_begin_val)
  assume "eval_pure T"
  then show "state_dict st' = state_dict st"
    by (simp add: run_phase_Inr(7) [OF r] fold_run_batch_val_state_dict phase_begin_fields)
qed

theorem C5_witness:
  "\<not> isl (run_phase toy_torch toy_globals 1 Val (train_init toy_objects)) \<and>
   eval_pure toy_torch \<and>
   events (projr (run_phase toy_torch toy_globals 1 Val (train_init toy_objects)))
     = [ModelTrain False, ZeroGrad, Forward False, ZeroGrad, Forward False,
        PrintPhase Val (1 / 2) (1 / 2), PrintPreds [0]] \<and>
   optimizer (projr (run_phase toy_torch toy_globals 1 Val (train_init toy_objects))) = 0 \<and>
   scheduler (projr (run_phase toy_torch toy_globals 1 Val (train_init toy_objects))) = 0 \<and>
   state_dict (projr (run_phase toy_torch toy_globals 1 Val (train_init toy_objects))) = 0"
proof -
  let ?r = "run_phase toy_torch toy_globals 1 Val (train_init toy_objects)"
  have r: "\<not> isl ?r" by code_simp
  have v: "epoch_loss (projr ?r) = 1 / 2" "epoch_acc (projr ?r) = 1 / 2" "preds (projr ?r) = [0]"
    "length (dataloaders toy_globals Val 1) = 2" "events (train_init toy_objects) = []"
    "optimizer (train_init toy_objects) = 0" "scheduler (train_init toy_objects) = 0"
    "state_dict (train_init toy_objects) = 0"
    by code_simp+
  have two: "concat (replicate 2 [ZeroGrad, Forward False]) = [ZeroGrad, Forward False, ZeroGrad, Forward False]"
    by (simp add: numeral_2_eq_2)
  from C5_val_phase_frame [OF Inr_projr [OF r]] toy_eval_pure r show ?thesis
    unfolding v two by simp
qed

text \<open>
  C6. In every epoch the scheduler is advanced exactly once: the call is the first
  library call of the epoch, after the two console lines of the epoch header and before
  the model is put in training mode and any batch is processed; no other call follows in
  the TRAIN or the VAL phase. Over a run of \<open>num_epochs\<close> epochs the scheduler is
  advanced \<open>num_epochs\<close> times.
\<close>

theorem C6_scheduler_once_per_epoch:
  "(run_epoch T G num_epochs e st = Inr st' \<longrightarrow>
      (\<exists>rest. events st' =
          events st @ [PrintEpoch e (int num_epochs - 1), PrintDashes, SchedulerStep] @ rest \<and>
          SchedulerStep \<notin> set rest) \<and>
      scheduler st' = fst (scheduler_step T (scheduler st) (optimizer st))) \<and>
   (train_model T G m num_epochs = Inr m' \<longrightarrow>
      count_list (events m') SchedulerStep = count_list (events m) SchedulerStep + num_epochs)"
proof (intro conjI impI)
  assume r: "run_epoch T G num_epochs e st = Inr st'"
  show "\<exists>rest. events st' =
          events st @ [PrintEpoch e (int num_epochs - 1), PrintDashes, SchedulerStep] @ rest \<and>
          SchedulerStep \<notin> set rest"
    by (rule run_epoch_scheduler(1) [OF r])
  show "scheduler st' = fst (scheduler_step T (scheduler st) (optimizer st))"
    by (rule run_epoch_scheduler(2) [OF r])
next
  assume t: "train_model T G m num_epochs = Inr m'"
  then obtain st where st: "epochs_state T G m num_epochs num_epochs = Inr st"
    and m': "m' = train_finish num_epochs st"
    by (auto simp: train_model_def split: sum.splits)
  have "events m' = events st @ [PrintTrainingComplete, PrintBestAcc (best_acc st),
          PlotLearningCurve (train_val_losses st Train) (train_val_losses st Val) num_epochs, LoadStateDict]"
    by (simp add: m' train_finish_def plot_learning_curve_def Let_def)
  then show "count_list (events m') SchedulerStep = count_list (events m) SchedulerStep + num_epochs"
    by (simp add: epochs_state_scheduler_steps [OF st])
qed

theorem C6_witness:
  "\<not> isl (run_epoch toy_torch toy_globals 2 0 (train_init toy_objects)) \<and>
   (\<exists>rest. events (projr (run_epoch toy_torch toy_globals 2 0 (train_init toy_objects)))
              = events (train_init toy_objects) @ [PrintEpoch 0 (int 2 - 1), PrintDashes, SchedulerStep] @ rest \<and>
            SchedulerStep \<notin> set rest) \<and>
   scheduler (projr (run_epoch toy_torch toy_globals 2 0 (train_init toy_objects)))
     = fst (scheduler_step toy_torch (scheduler (train_init toy_objects)) (optimizer (train_init toy_objects))) \<and>
   \<not> isl (train_model toy_torch toy_globals toy_objects 2) \<and>
   count_list (events (projr (train_model toy_torch toy_globals toy_objects 2))) SchedulerStep
     = count_list (events toy_objects) SchedulerStep + 2"
proof -
  have r: "\<not> isl (run_epoch toy_torch toy_globals 2 0 (train_init toy_objects))" by code_simp
  have t: "\<not> isl (train_model toy_torch toy_globals toy_objects 2)" by code_simp
  from C6_scheduler_once_per_epoch
         [of toy_torch toy_globals 2 0 "train_init toy_objects" _ toy_objects]
       Inr_projr [OF r] Inr_projr [OF t] r t
  show ?thesis by blast
qed

text \<open>
  C7. In every phase of every epoch the reported epoch loss is the sum over the phase's
  batches of batch loss times batch size, divided by the dataset size, and the reported
  epoch accuracy is the total number of correct predictions divided by the dataset size.
  The loss is appended to the series of its phase, and the two series handed to
  \<^verbatim>\<open>plot_learning_curve\<close> both have as many entries as there were epochs.
\<close>

theorem C7_epoch_statistics:
  "(run_phase T G e ph st = Inr st' \<longrightarrow>
      epoch_loss st' =
        weighted_loss (batch_stats T ph (dataloaders G ph e) (phase_begin T ph st))
          / real (dataset_sizes G ph) \<and>
      epoch_acc st' =
        real (total_corrects (batch_stats T ph (dataloaders G ph e) (phase_begin T ph st)))
          / real (dataset_sizes G ph) \<and>
      (\<exists>before. events st' =
          before @ [PrintPhase ph (epoch_loss st') (epoch_acc st'), PrintPreds (preds st')]) \<and>
      train_val_losses st' = (train_val_losses st)(ph := train_val_losses st ph @ [epoch_loss st'])) \<and>
   (train_model T G m num_epochs = Inr m' \<longrightarrow>
      (\<exists>before training_loss validation_loss.
          events m' = before @ [PlotLearningCurve training_loss validation_loss num_epochs, LoadStateDict] \<and>
          length training_loss = num_epochs \<and> length validation_loss = num_epochs))"
proof (intro conjI impI)
  assume r: "run_phase T G e ph st = Inr st'"
  let ?stats = "batch_stats T ph (dataloaders G ph e) (phase_begin T ph st)"
  show "epoch_loss st' = weighted_loss ?stats / real (dataset_sizes G ph)"
    by (simp add: run_phase_Inr(3) [OF r] fold_run_batch_sums phase_begin_fields)
  show "epoch_acc st' = real (total_corrects ?stats) / real (dataset_sizes G ph)"
    by (simp add: run_phase_Inr(4) [OF r] fold_run_batch_sums phase_begin_fields)
  show "\<exists>before. events st' =
          before @ [PrintPhase ph (epoch_loss st') (epoch_acc st'), PrintPreds (preds st')]"
    using run_phase_Inr(5) [OF r] by blast
  show "train_val_losses st' = (train_val_losses st)(ph := train_val_losses st ph @ [epoch_loss st'])"
    by (rule run_phase_Inr(6) [OF r])
next
  assume t: "train_model T G m num_epochs = Inr m'"
  then obtain st where st: "epochs_state T G m num_epochs num_epochs = Inr st"
    and m': "m' = train_finish num_epochs st"
    by (auto simp: train_model_def split: sum.splits)
  have "events m' = (events st @ [PrintTrainingComplete, PrintBestAcc (best_acc st)]) @
          [PlotLearningCurve (train_val_losses st Train) (train_val_losses st Val) num_epochs, LoadStateDict]"
    by (simp add: m' train_finish_def plot_learning_curve_def Let_def)
  with epochs_state_losses [OF st]
  show "\<exists>before training_loss validation_loss.
          events m' = before @ [PlotLearningCurve training_loss validation_loss num_epochs, LoadStateDict] \<and>
          length training_loss = num_epochs \<and> length validation_loss = num_epochs"
    by blast
qed

theorem C7_witness:
  "\<not> isl (run_phase toy_torch toy_globals 1 Val (train_init toy_objects)) \<and>
   weighted_loss (batch_stats toy_torch Val (dataloaders toy_globals Val 1)
                    (phase_begin toy_torch Val (train_init toy_objects))) = 1 \<and>
   total_corrects (batch_stats toy_torch Val (dataloaders toy_globals Val 1)
                    (phase_begin toy_torch Val (train_init toy_objects))) = 1 \<and>
   dataset_sizes toy_globals Val = 2 \<and>
   epoch_loss (projr (run_phase toy_torch toy_globals 1 Val (train_init toy_objects))) = 1 / 2 \<and>
   epoch_acc (projr (run_phase toy_torch toy_globals 1 Val (train_init toy_objects))) = 1 / 2 \<and>
   train_val_losses (projr (run_phase toy_torch toy_globals 1 Val (train_init toy_objects))) Val = [1 / 2] \<and>
   \<not> isl (train_model toy_torch toy_globals toy_objects 2) \<and>
   (\<exists>before training_loss validation_loss.
      events (projr (train_model toy_torch toy_globals toy_objects 2))
        = before @ [PlotLearningCurve training_loss validation_loss 2, LoadStateDict] \<and>
      length training_loss = 2 \<and> length validation_loss = 2)"
proof -
  let ?r = "run_phase toy_torch toy_globals 1 Val (train_init toy_objects)"
  let ?stats = "batch_stats toy_torch Val (dataloaders toy_globals Val 1)
                    (phase_begin toy_torch Val (train_init toy_objects))"
  have r: "\<not> isl ?r" by code_simp
  have t: "\<not> isl (train_model toy_torch toy_globals toy_objects 2)" by code_simp
  have v: "weighted_loss ?stats = 1" "total_corrects ?stats = 1" "dataset_sizes toy_globals Val = 2"
    "train_val_losses (train_init toy_objects) Val = []"
    by code_simp+
  note c7 = C7_epoch_statistics
         [of toy_torch toy_globals 1 Val "train_init toy_objects" "projr ?r" toy_objects 2
             "projr (train_model toy_torch toy_globals toy_objects 2)"]
  from c7 Inr_projr [OF r] have
    "epoch_loss (projr ?r) = weighted_loss ?stats / real (dataset_sizes toy_globals Val)"
    "epoch_acc (projr ?r) = real (total_corrects ?stats) / real (dataset_sizes toy_globals Val)"
    "train_val_losses (projr ?r) Val = train_val_losses (train_init toy_objects) Val @ [epoch_loss (projr ?r)]"
    by simp_all
  then have e: "epoch_loss (projr ?r) = 1 / 2" "epoch_acc (projr ?r) = 1 / 2"
    "train_val_losses (projr ?r) Val = [1 / 2]"
    unfolding v by simp_all
  from c7 Inr_projr [OF t] have
    "\<exists>before training_loss validation_loss.
      events (projr (train_model toy_torch toy_globals toy_objects 2))
        = before @ [PlotLearningCurve training_loss validation_loss 2, LoadStateDict] \<and>
      length training_loss = 2 \<and> length validation_loss = 2"
    by blast
  with r t v e show ?thesis by blast
qed

text \<open>
  C8, as amended. If the train folder or the val folder of the dataset root is missing or
  empty, the script fails with DataLoadError at lines 64-67, and nothing after them
  runs: no training occurs. If neither is, loading succeeds and the rest of the script
  runs on the two datasets, each with the classes of its own folder: the class structures
  of train and val are never compared, so an inconsistency between them is no load
  failure.
\<close>

theorem C8_load_failure_before_training:
  "(missing_or_empty fs Train \<or> missing_or_empty fs Val \<longrightarrow> script fs rest = Inl DataLoadError) \<and>
   (\<not> missing_or_empty fs Train \<and> \<not> missing_or_empty fs Val \<longrightarrow>
      (\<exists>ds. load_image_datasets fs = Inr ds \<and> script fs rest = rest ds \<and>
            classes (ds Train) = class_folders fs Train \<and>
            classes (ds Val) = class_folders fs Val))"
proof (intro conjI impI)
  assume bad: "missing_or_empty fs Train \<or> missing_or_empty fs Val"
  show "script fs rest = Inl DataLoadError"
  proof (cases "missing_or_empty fs Train")
    case True
    from ImageFolder_fails [OF True] show ?thesis
      by (simp add: script_def load_image_datasets_def)
  next
    case False
    with bad have v: "missing_or_empty fs Val" by simp
    from ImageFolder_loads [OF False] obtain d where
      "ImageFolder fs (os_path_join data_dir (phase_name Train)) = Inr d" by blast
    with ImageFolder_fails [OF v] show ?thesis
      by (simp add: script_def load_image_datasets_def)
  qed
next
  assume ok: "\<not> missing_or_empty fs Train \<and> \<not> missing_or_empty fs Val"
  from ok ImageFolder_loads [of fs Train] obtain tr where
    tr: "ImageFolder fs (os_path_join data_dir (phase_name Train)) = Inr tr"
      "classes tr = class_folders fs Train" by blast
  from ok ImageFolder_loads [of fs Val] obtain va where
    va: "ImageFolder fs (os_path_join data_dir (phase_name Val)) = Inr va"
      "classes va = class_folders fs Val" by blast
  from tr va
  show "\<exists>ds. load_image_datasets fs = Inr ds \<and> script fs rest = rest ds \<and>
            classes (ds Train) = class_folders fs Train \<and>
            classes (ds Val) = class_folders fs Val"
    by (intro exI [of _ "\<lambda>x. case x of Train \<Rightarrow> tr | Val \<Rightarrow> va"])
      (simp add: script_def load_image_datasets_def)
qed

theorem C8_counterexample:
  "inconsistent fs_mismatch \<and>
   script fs_mismatch class_report = Inr ([''adenoma'', ''normal''], [''normal'', ''tumor''])"
  by (simp add: inconsistent_def class_folders_def fs_mismatch_def script_def
      load_image_datasets_def ImageFolder_def class_report_def data_dir_def os_path_join_def)

theorem C8_witness:
  "missing_or_empty fs_no_val Val \<and>
   script fs_no_val class_report = Inl DataLoadError \<and>
   \<not> missing_or_empty fs_good Train \<and> \<not> missing_or_empty fs_good Val \<and>
   (\<exists>ds. load_image_datasets fs_good = Inr ds \<and> script fs_good class_report = class_report ds \<and>
         classes (ds Train) = class_folders fs_good Train \<and>
         classes (ds Val) = class_folders fs_good Val)"
proof -
  have b: "missing_or_empty fs_no_val Val"
    by (simp add: missing_or_empty_def fs_no_val_def data_dir_def os_path_join_def)
  have g: "\<not> missing_or_empty fs_good Train" "\<not> missing_or_empty fs_good Val"
    by (simp_all add: missing_or_empty_def fs_good_def data_dir_def os_path_join_def)
  from C8_load_failure_before_training [of fs_no_val class_report]
    C8_load_failure_before_training [of fs_good class_report] b g
  show ?thesis by blast
qed

text \<open>
  C9, as amended. When the pass of the validation loader yields fewer images than the
  requested sample count, and no more images than the grid of line 291 has cells (six
  times \<^verbatim>\<open>num_images//6\<close>; with the default count 24 the 24 cells hold every such
  pass), \<^verbatim>\<open>visualize_model\<close> runs the model on every batch and renders every image,
  sets the model's mode back to what it was at entry, and returns; it never calls
  \<^verbatim>\<open>compute_roc_metrics\<close> and prints none of the three accumulated arrays.
  Assumed: every predicted class has a name in \<^verbatim>\<open>class_names\<close>.
\<close>

theorem C9_fewer_samples_no_roc:
  assumes "named_predictions T G"
    and "length (concat (dataloaders G Val k)) < num_images"
    and "length (concat (dataloaders G Val k)) \<le> (num_images div 6) * 6"
  shows "\<exists>m' new.
           visualize_model T G k m num_images = Inr m' \<and>
           training m' = training m \<and>
           events m' = events m @ [ModelTrain False, Figure] @ new @ [ModelTrain (training m)] \<and>
           count_list new (Forward False) = length (dataloaders G Val k) \<and>
           count_list new Imshow = length (concat (dataloaders G Val k)) \<and>
           filter is_roc new = [] \<and>
           filter is_array_print new = []"
proof -
  from assms(2) have lt: "images_so_far (vis_init m) < num_images" by (simp add: vis_init_fields)
  from assms(2,3)
  have cell: "min num_images (images_so_far (vis_init m) + length (concat (dataloaders G Val k)))
                \<le> (num_images div 6) * 6"
    by (simp add: vis_init_fields)
  from outer_loop [OF assms(1) lt cell] assms(2)
  obtain st new where
    loop: "for_loop (show_batch T G num_images) (dataloaders G Val k) (vis_init m) = Inr (Next st)"
    and f: "was_training st = training m"
      "events st = (events m @ [ModelTrain False, Figure]) @ new"
      "count_list new Imshow = length (concat (dataloaders G Val k))"
      "count_list new (Forward False) = length (dataloaders G Val k)"
      "filter is_roc new = []" "filter is_array_print new = []"
    by (auto simp: vis_init_fields)
  let ?m' = "vis_objects (emit [ModelTrain (was_training st)] (st\<lparr>training := was_training st\<rparr>))"
  have "visualize_model T G k m num_images = Inr ?m'"
    by (simp add: visualize_model_def visualize_loop_def loop)
  with f show ?thesis
    by (intro exI [of _ ?m'] exI [of _ new]) (simp add: vis_objects_fields)
qed

theorem C9_witness:
  "named_predictions toy_torch toy_globals \<and>
   length (concat (dataloaders toy_globals Val 0)) < 24 \<and>
   length (concat (dataloaders toy_globals Val 0)) \<le> (24 div 6) * 6 \<and>
   (\<exists>m' new.
      visualize_model toy_torch toy_globals 0 toy_trained 24 = Inr m' \<and>
      training m' = training toy_trained \<and>
      events m' = events toy_trained @ [ModelTrain False, Figure] @ new @ [ModelTrain (training toy_trained)] \<and>
      count_list new (Forward False) = length (dataloaders toy_globals Val 0) \<and>
      count_list new Imshow = length (concat (dataloaders toy_globals Val 0)) \<and>
      filter is_roc new = [] \<and>
      filter is_array_print new = [])"
proof -
  have n: "length (concat (dataloaders toy_globals Val 0)) < 24" by code_simp
  have c: "length (concat (dataloaders toy_globals Val 0)) \<le> (24 div 6) * 6" by code_simp
  from C9_fewer_samples_no_roc [OF toy_named_predictions(2) n c, of toy_trained]
    toy_named_predictions(2) n c
  show ?thesis by blast
qed

text \<open>
  The claim as first stated fails for a requested count below 6: the grid has no row,
  and line 291 raises at the first of the two images.
\<close>

theorem C9_counterexample:
  "length (concat (dataloaders toy_globals Val 0)) < 5 \<and>
   visualize_model toy_torch toy_globals 0 toy_trained 5 = Inl ValueError"
  by code_simp

text \<open>
  C10. If no epoch's validation accuracy strictly exceeds 0.0, the model
  \<^verbatim>\<open>train_model\<close> returns has the parameters it had at entry.
\<close>

theorem C10_no_improvement_returns_entry_state:
  assumes "train_model T G m n = Inr m'" and "no_improvement T G m n"
  shows "state_dict m' = state_dict m"
proof -
  from assms(1) obtain st where st: "epochs_state T G m n n = Inr st"
    and m': "m' = train_finish n st"
    by (auto simp: train_model_def split: sum.splits)
  from assms(2) have "\<not> (\<exists>e<n. 0 < epoch_val_acc T G m n e)"
    by (auto simp: no_improvement_def list_all_iff)
  with best_after_epochs [OF st] have "best_model_wts st = state_dict m"
    by simp
  then show ?thesis
    by (simp add: m' state_dict_train_finish)
qed

theorem C10_witness:
  "\<not> isl (train_model toy_torch toy_globals_unseen toy_objects 2) \<and>
   no_improvement toy_torch toy_globals_unseen toy_objects 2 \<and>
   state_dict (projr (train_model toy_torch toy_globals_unseen toy_objects 2)) = state_dict toy_objects"
proof -
  have r: "\<not> isl (train_model toy_torch toy_globals_unseen toy_objects 2)" by code_simp
  have n: "no_improvement toy_torch toy_globals_unseen toy_objects 2" by code_simp
  from C10_no_improvement_returns_entry_state [OF Inr_projr [OF r] n] r n show ?thesis by simp
qed

end
